theory Spec2Isabelle
  imports Complex_Main "HOL-Library.Sublist" "HOL-Library.AList" "HOL-Library.Product_Lexorder"
begin

section \<open>Data model\<close>

text \<open>
  Strings are lists of characters; a character stands for one UTF-16 code unit of the
  Latin-1 range (all keywords of the tables in \<open>features.ts\<close> lie in that range).
  The \<open>DECIMAL\<close> columns of the schema are exact reals: every delta of the weight
  updater is a multiple of \<open>0.01\<close>, so the arithmetic of the \<open>DECIMAL(4,3)\<close> column is
  exact on the values the updater produces. A number of JavaScript is the real it denotes,
  and every operation of JavaScript on numbers rounds its result to binary64.
\<close>

text \<open>
  The \<open>features\<close> column (\<open>RecipeFeatures\<close> in \<open>types.ts\<close>): a JSON object whose
  values are strings or arrays of strings (or \<open>null\<close>), kept in iteration order.
\<close>

datatype jsonb = JNull | JString string | JArray "string list"

type_synonym features = "(string \<times> jsonb) list"

text \<open>The enums of the schema.\<close>

datatype rating_value = Loved | Liked | Neutral | Disliked | Hated

datatype feature_type =
  Cuisine | Protein | Carb | Cooking_method | Prep_time_bucket | Ingredient | Spice_level | Meal_type

fun feature_type_label :: "feature_type \<Rightarrow> string" where
  "feature_type_label Cuisine = ''cuisine''"
| "feature_type_label Protein = ''protein''"
| "feature_type_label Carb = ''carb''"
| "feature_type_label Cooking_method = ''cooking_method''"
| "feature_type_label Prep_time_bucket = ''prep_time_bucket''"
| "feature_type_label Ingredient = ''ingredient''"
| "feature_type_label Spice_level = ''spice_level''"
| "feature_type_label Meal_type = ''meal_type''"

text \<open>
  The cast \<open>feature_key::feature_type\<close>: PostgreSQL accepts exactly the labels of the
  enum and raises \<open>invalid input value for enum\<close> on any other text.
\<close>

definition cast_feature_type :: "string \<Rightarrow> feature_type option" where
  "cast_feature_type s =
     (if s = ''cuisine'' then Some Cuisine
      else if s = ''protein'' then Some Protein
      else if s = ''carb'' then Some Carb
      else if s = ''cooking_method'' then Some Cooking_method
      else if s = ''prep_time_bucket'' then Some Prep_time_bucket
      else if s = ''ingredient'' then Some Ingredient
      else if s = ''spice_level'' then Some Spice_level
      else if s = ''meal_type'' then Some Meal_type
      else None)"

datatype sql_error = Invalid_enum_label string | Negative_limit | Ambiguous_column string

section \<open>JavaScript numbers\<close>

text \<open>
  A finite number of JavaScript is an IEEE 754 binary64 value: \<open>m * 2^k\<close> with an integer
  \<open>m\<close> of at most 53 binary digits and \<open>k \<ge> -1074\<close>. It is modelled as the real it denotes
  (the two zeros are one number: no operation used here tells them apart). A decimal that
  the database sends reaches JavaScript as the nearest such value, the weight \<open>0.15\<close> as
  \<open>binary64 0.15\<close>. Results beyond the largest finite value (about \<open>1.8e308\<close>), which
  JavaScript gives as \<open>Infinity\<close>, are not modelled: the weights are read from a
  \<open>DECIMAL(4,3)\<close> column.
\<close>

text \<open>The number of binary digits of a natural number.\<close>

fun bit_length :: "nat \<Rightarrow> nat" where
  "bit_length n = (if n = 0 then 0 else Suc (bit_length (n div 2)))"

declare bit_length.simps [simp del]

text \<open>The binary exponent of a positive real: the \<open>e\<close> with \<open>2^e \<le> x < 2^(e+1)\<close>.\<close>

definition exponent :: "real \<Rightarrow> int" where
  "exponent x =
     (if 1 \<le> x then int (bit_length (nat \<lfloor>x\<rfloor>)) - 1
      else - int (bit_length (nat (\<lceil>1 / x\<rceil> - 1))))"

text \<open>The nearest integer, a tie going to the even one.\<close>

definition round_half_even :: "real \<Rightarrow> int" where
  "round_half_even x =
     (let n = \<lfloor>x\<rfloor>; f = x - of_int n
      in if f < 1 / 2 then n else if 1 / 2 < f then n + 1 else if even n then n else n + 1)"

text \<open>
  Rounding to binary64: the nearest multiple of the spacing \<open>2^(e-52)\<close> of the values
  around \<open>x\<close>, where \<open>e\<close> is the exponent of \<open>x\<close> and at least \<open>-1022\<close>.
\<close>

definition binary64 :: "real \<Rightarrow> real" where
  "binary64 x =
     (if x = 0 then 0
      else let e = max (exponent \<bar>x\<bar>) (- 1022); q = 2 powi (e - 52)
           in of_int (round_half_even (x / q)) * q)"

text \<open>The operators \<open>+\<close>, \<open>*\<close> and \<open>/\<close> of JavaScript, and \<open>Math.round\<close> (halves go up).\<close>

definition js_add :: "real \<Rightarrow> real \<Rightarrow> real" where
  "js_add x y = binary64 (x + y)"

definition js_mul :: "real \<Rightarrow> real \<Rightarrow> real" where
  "js_mul x y = binary64 (x * y)"

definition js_div :: "real \<Rightarrow> real \<Rightarrow> real" where
  "js_div x y = binary64 (x / y)"

definition Math_round :: "real \<Rightarrow> real" where
  "Math_round x = of_int \<lfloor>x + 1 / 2\<rfloor>"

section \<open>The weight updater: trigger \<open>update_preference_weights\<close>\<close>

type_synonym profile_id = string
type_synonym recipe_id = string

text \<open>
  Table \<open>preference_weights\<close>: at most one row per
  \<open>(profile_id, feature_type, feature_value)\<close>, holding \<open>(weight, sample_count)\<close>.
\<close>

type_synonym weight_key = "profile_id \<times> feature_type \<times> string"
type_synonym preference_weights = "weight_key \<Rightarrow> (real \<times> int) option"

text \<open>A row of table \<open>ratings\<close>, as the trigger sees it in \<open>NEW\<close>.\<close>

record rating_row =
  rating_profile_id :: profile_id
  rating_recipe_id :: recipe_id
  rating :: rating_value
  excluded_ingredients :: "string list option"

text \<open>\<open>weight_delta := CASE NEW.rating WHEN 'loved' THEN 0.15 ...\<close>\<close>

fun weight_delta :: "rating_value \<Rightarrow> real" where
  "weight_delta Loved = 0.15"
| "weight_delta Liked = 0.08"
| "weight_delta Neutral = 0.0"
| "weight_delta Disliked = - 0.08"
| "weight_delta Hated = - 0.15"

text \<open>
  \<open>feature_val::text\<close> on a \<open>jsonb\<close> value prints its JSON text: a string comes out
  quoted and escaped (PostgreSQL's \<open>escape_json\<close>), \<open>null\<close> as \<open>null\<close>.
\<close>

definition hex_digit :: "nat \<Rightarrow> char" where
  "hex_digit n = ''0123456789abcdef'' ! (n mod 16)"

definition escape_json_char :: "char \<Rightarrow> string" where
  "escape_json_char c =
     (if c = CHR 0x08 then [CHR 0x5C, CHR ''b'']
      else if c = CHR 0x0C then [CHR 0x5C, CHR ''f'']
      else if c = CHR 0x0A then [CHR 0x5C, CHR ''n'']
      else if c = CHR 0x0D then [CHR 0x5C, CHR ''r'']
      else if c = CHR 0x09 then [CHR 0x5C, CHR ''t'']
      else if c = CHR 0x22 then [CHR 0x5C, CHR 0x22]
      else if c = CHR 0x5C then [CHR 0x5C, CHR 0x5C]
      else if (of_char c :: nat) < 32
        then [CHR 0x5C, CHR ''u'', CHR ''0'', CHR ''0'',
              hex_digit ((of_char c :: nat) div 16), hex_digit (of_char c)]
      else [c])"

definition json_string_text :: "string \<Rightarrow> string" where
  "json_string_text s = CHR 0x22 # concat (map escape_json_char s) @ [CHR 0x22]"

fun json_elements_text :: "string list \<Rightarrow> string" where
  "json_elements_text [] = []"
| "json_elements_text [x] = json_string_text x"
| "json_elements_text (x # y # ys) = json_string_text x @ '', '' @ json_elements_text (y # ys)"

fun jsonb_text :: "jsonb \<Rightarrow> string" where
  "jsonb_text JNull = ''null''"
| "jsonb_text (JString s) = json_string_text s"
| "jsonb_text (JArray xs) = ''['' @ json_elements_text xs @ '']''"

text \<open>
  \<open>INSERT ... VALUES (..., weight_delta, 1) ON CONFLICT ... DO UPDATE SET
  weight = GREATEST(-1.0, LEAST(1.0, weight + weight_delta)), sample_count = sample_count + 1\<close>
\<close>

definition upsert_weight :: "preference_weights \<Rightarrow> weight_key \<Rightarrow> real \<Rightarrow> preference_weights" where
  "upsert_weight tbl k delta =
     (case tbl k of
        None \<Rightarrow> tbl(k \<mapsto> (delta, 1))
      | Some (w, n) \<Rightarrow> tbl(k \<mapsto> (max (- 1.0) (min 1.0 (w + delta)), n + 1)))"

text \<open>
  \<open>INSERT ... VALUES (..., 'ingredient', ingredient, -0.2, 1) ON CONFLICT ... DO UPDATE SET
  weight = GREATEST(-1.0, weight - 0.2), sample_count = sample_count + 1\<close>
\<close>

definition upsert_excluded :: "preference_weights \<Rightarrow> weight_key \<Rightarrow> preference_weights" where
  "upsert_excluded tbl k =
     (case tbl k of
        None \<Rightarrow> tbl(k \<mapsto> (- 0.2, 1))
      | Some (w, n) \<Rightarrow> tbl(k \<mapsto> (max (- 1.0) (w - 0.2), n + 1)))"

text \<open>The inner loop over \<open>jsonb_array_elements_text(feature_val)\<close>.\<close>

fun update_array_feature ::
  "preference_weights \<Rightarrow> profile_id \<Rightarrow> string \<Rightarrow> real \<Rightarrow> string list \<Rightarrow> sql_error + preference_weights"
where
  "update_array_feature tbl pid feature_key delta [] = Inr tbl"
| "update_array_feature tbl pid feature_key delta (ingredient # rest) =
     (case cast_feature_type feature_key of
        None \<Rightarrow> Inl (Invalid_enum_label feature_key)
      | Some ft \<Rightarrow>
          update_array_feature (upsert_weight tbl (pid, ft, ingredient) delta) pid feature_key delta rest)"

text \<open>The body of the loop over \<open>jsonb_each(recipe_features)\<close>.\<close>

definition update_feature ::
  "preference_weights \<Rightarrow> profile_id \<Rightarrow> real \<Rightarrow> string \<times> jsonb \<Rightarrow> sql_error + preference_weights"
where
  "update_feature tbl pid delta kv =
     (case snd kv of
        JArray vals \<Rightarrow> update_array_feature tbl pid (fst kv) delta vals
      | feature_val \<Rightarrow>
          (case cast_feature_type (fst kv) of
             None \<Rightarrow> Inl (Invalid_enum_label (fst kv))
           | Some ft \<Rightarrow> Inr (upsert_weight tbl (pid, ft, jsonb_text feature_val) delta)))"

fun update_features ::
  "preference_weights \<Rightarrow> profile_id \<Rightarrow> real \<Rightarrow> features \<Rightarrow> sql_error + preference_weights"
where
  "update_features tbl pid delta [] = Inr tbl"
| "update_features tbl pid delta (kv # rest) =
     (case update_feature tbl pid delta kv of
        Inl e \<Rightarrow> Inl e
      | Inr tbl' \<Rightarrow> update_features tbl' pid delta rest)"

text \<open>\<open>FOREACH ingredient IN ARRAY NEW.excluded_ingredients\<close>\<close>

fun update_excluded :: "preference_weights \<Rightarrow> profile_id \<Rightarrow> string list \<Rightarrow> preference_weights" where
  "update_excluded tbl pid [] = tbl"
| "update_excluded tbl pid (ingredient # rest) =
     update_excluded (upsert_excluded tbl (pid, Ingredient, ingredient)) pid rest"

text \<open>
  \<open>SELECT features INTO recipe_features FROM recipes WHERE id = NEW.recipe_id\<close>, where
  \<open>recipes\<close> is the \<open>features\<close> column by recipe id; \<open>jsonb_each\<close> of a missing
  row's \<open>NULL\<close> yields no pairs.
\<close>

definition recipe_features :: "(recipe_id \<Rightarrow> features option) \<Rightarrow> recipe_id \<Rightarrow> features" where
  "recipe_features recipes rid = (case recipes rid of None \<Rightarrow> [] | Some fs \<Rightarrow> fs)"

text \<open>
  The trigger function. An exception (\<open>Inl\<close>) aborts the statement, so none of its
  updates is kept.
\<close>

definition update_preference_weights ::
  "(recipe_id \<Rightarrow> features option) \<Rightarrow> preference_weights \<Rightarrow> rating_row \<Rightarrow> sql_error + preference_weights"
where
  "update_preference_weights recipes tbl NEW =
     (let fs = recipe_features recipes (rating_recipe_id NEW)
      in case update_features tbl (rating_profile_id NEW) (weight_delta (rating NEW)) fs of
           Inl e \<Rightarrow> Inl e
         | Inr tbl' \<Rightarrow>
             (case excluded_ingredients NEW of
                None \<Rightarrow> Inr tbl'
              | Some xs \<Rightarrow>
                  if length xs > 0 then Inr (update_excluded tbl' (rating_profile_id NEW) xs)
                  else Inr tbl'))"

text \<open>
  A sequence of inserts into \<open>ratings\<close>, each firing the trigger; an insert whose trigger
  raises is rolled back and leaves the table as it was.
\<close>

fun apply_ratings ::
  "(recipe_id \<Rightarrow> features option) \<Rightarrow> preference_weights \<Rightarrow> rating_row list \<Rightarrow> preference_weights"
where
  "apply_ratings recipes tbl [] = tbl"
| "apply_ratings recipes tbl (NEW # rest) =
     apply_ratings recipes
       (case update_preference_weights recipes tbl NEW of Inl e \<Rightarrow> tbl | Inr tbl' \<Rightarrow> tbl') rest"

text \<open>
  The \<open>(feature_key, feature_value)\<close> pairs the feature loop of the trigger upserts, in
  its order: one per member of an array feature, one per scalar feature (as its JSON text).
\<close>

fun feature_pairs :: "features \<Rightarrow> (string \<times> string) list" where
  "feature_pairs [] = []"
| "feature_pairs ((k, JArray vals) # rest) = map (Pair k) vals @ feature_pairs rest"
| "feature_pairs ((k, v) # rest) = (k, jsonb_text v) # feature_pairs rest"

text \<open>The stored weight of a key, and the invariant of the \<open>weight\<close> column.\<close>

definition weight_of :: "preference_weights \<Rightarrow> weight_key \<Rightarrow> real option" where
  "weight_of tbl k = map_option fst (tbl k)"

definition weights_in_range :: "preference_weights \<Rightarrow> bool" where
  "weights_in_range tbl = (\<forall>k w n. tbl k = Some (w, n) \<longrightarrow> - 1 \<le> w \<and> w \<le> 1)"

text \<open>The weight stored under a key once the insert of rating \<open>NEW\<close> has run the trigger.\<close>

definition rated_weight ::
  "(recipe_id \<Rightarrow> features option) \<Rightarrow> preference_weights \<Rightarrow> rating_row \<Rightarrow> weight_key \<Rightarrow> sql_error + real option"
where
  "rated_weight recipes tbl NEW k =
     (case update_preference_weights recipes tbl NEW of
        Inl e \<Rightarrow> Inl e
      | Inr tbl' \<Rightarrow> Inr (weight_of tbl' k))"

section \<open>The scoring engine: \<open>calculateScore\<close>\<close>

text \<open>
  \<open>PreferenceWeight\<close> of \<open>types.ts\<close>, as the API reads the rows of
  \<open>preference_weights\<close> (its fields \<open>id\<close> and \<open>updated_at\<close>, which no function
  reads, are left out). \<open>feature_type\<close> is the label of the enum, a string; \<open>weight\<close>
  is the number JavaScript has parsed from the row.
\<close>

record PreferenceWeight =
  profile_id :: profile_id
  feature_type :: string
  feature_value :: string
  weight :: real
  sample_count :: int

text \<open>The template literal \<open>`${featureType}:${val}`\<close>.\<close>

definition weight_key_string :: "string \<Rightarrow> string \<Rightarrow> string" where
  "weight_key_string t v = t @ '':'' @ v"

text \<open>\<open>weightMap = new Map(); for (const w of userWeights) weightMap.set(key, w.weight)\<close>\<close>

definition weightMap :: "PreferenceWeight list \<Rightarrow> (string \<rightharpoonup> real)" where
  "weightMap userWeights =
     foldl (\<lambda>m w. m(weight_key_string (feature_type w) (feature_value w) \<mapsto> weight w))
       Map.empty userWeights"

text \<open>
  The loop over the elements of an array feature, with the running \<open>totalScore\<close>;
  \<open>totalScore += weight\<close> is an addition of JavaScript.
\<close>

fun score_array :: "(string \<rightharpoonup> real) \<Rightarrow> string \<Rightarrow> real \<Rightarrow> string list \<Rightarrow> real" where
  "score_array wm featureType totalScore [] = totalScore"
| "score_array wm featureType totalScore (val # rest) =
     score_array wm featureType
       (case wm (weight_key_string featureType val) of
          None \<Rightarrow> totalScore
        | Some w \<Rightarrow> js_add totalScore w) rest"

text \<open>The loop over \<open>Object.entries(recipeFeatures)\<close>; \<open>null\<close> values are skipped.\<close>

fun score_features :: "(string \<rightharpoonup> real) \<Rightarrow> real \<Rightarrow> features \<Rightarrow> real" where
  "score_features wm totalScore [] = totalScore"
| "score_features wm totalScore ((featureType, JNull) # rest) = score_features wm totalScore rest"
| "score_features wm totalScore ((featureType, JArray vals) # rest) =
     score_features wm (score_array wm featureType totalScore vals) rest"
| "score_features wm totalScore ((featureType, JString featureValue) # rest) =
     score_features wm
       (case wm (weight_key_string featureType featureValue) of
          None \<Rightarrow> totalScore
        | Some w \<Rightarrow> js_add totalScore w) rest"

definition calculateScore :: "features \<Rightarrow> PreferenceWeight list \<Rightarrow> real" where
  "calculateScore recipeFeatures userWeights = score_features (weightMap userWeights) 0 recipeFeatures"

text \<open>
  The \<open>(type, value)\<close> pairs of a feature set as \<open>calculateScore\<close> reads them: one for a
  scalar feature, one per element of an array feature, in order.
\<close>

fun scored_pairs :: "features \<Rightarrow> (string \<times> string) list" where
  "scored_pairs [] = []"
| "scored_pairs ((t, JNull) # rest) = scored_pairs rest"
| "scored_pairs ((t, JString v) # rest) = (t, v) # scored_pairs rest"
| "scored_pairs ((t, JArray vals) # rest) = map (Pair t) vals @ scored_pairs rest"

text \<open>
  The score in the words of the specification: the sum of the weights of exactly the
  \<open>(type, value)\<close> pairs present in both the features and the weights (the weight list
  holding each key at most once).
\<close>

definition spec_score :: "features \<Rightarrow> PreferenceWeight list \<Rightarrow> real" where
  "spec_score fs ws =
     sum_list (map weight
       (filter (\<lambda>w. (feature_type w, feature_value w) \<in> set (scored_pairs fs)) ws))"

section \<open>Family suggestions: \<open>getFamilySuggestions\<close>\<close>

text \<open>
  The rows the functions read: of \<open>profiles\<close> its \<open>id\<close>, \<open>household_id\<close> and
  \<open>display_name\<close>; of \<open>recipes\<close> its \<open>id\<close>, \<open>name\<close>, \<open>image_url\<close>, \<open>features\<close> and
  \<open>external_rating\<close>. A table is the list of the rows a query of the request sees (row
  level security decides which), in the order the database scans them.
\<close>

record Profile =
  p_id :: profile_id
  household_id :: string
  display_name :: string

record Recipe =
  r_id :: recipe_id
  r_name :: string
  r_image_url :: "string option"
  r_features :: features
  external_rating :: "real option"

text \<open>\<open>minScore\<close> starts at \<open>Infinity\<close>; every other number here is finite.\<close>

datatype number = Infinity | Num real

record FamilyScoredRecipe =
  recipe_id :: recipe_id
  recipe_name :: string
  image_url :: "string option"
  min_score :: number
  scores :: "(string \<times> real) list"

text \<open>\<open>Math.round(x * 100) / 100\<close>, the product and the quotient rounded to binary64.\<close>

definition round2 :: "real \<Rightarrow> real" where
  "round2 x = js_div (Math_round (js_mul x 100)) 100"

fun round2_number :: "number \<Rightarrow> number" where
  "round2_number Infinity = Infinity"
| "round2_number (Num x) = Num (round2 x)"

fun Math_min :: "number \<Rightarrow> real \<Rightarrow> number" where
  "Math_min Infinity score = Num score"
| "Math_min (Num m) score = Num (min m score)"

text \<open>\<open>minScore >= 0\<close>\<close>

fun number_ge0 :: "number \<Rightarrow> bool" where
  "number_ge0 Infinity = True"
| "number_ge0 (Num m) = (0 \<le> m)"

text \<open>
  \<open>ORDER BY external_rating DESC NULLS LAST\<close>: rows with a rating first, the highest
  rating first, then the rows without one. Rows that tie keep their scan order; the
  database promises no order among them.
\<close>

definition popularity_key :: "Recipe \<Rightarrow> nat \<times> real" where
  "popularity_key r = (case external_rating r of None \<Rightarrow> (1, 0) | Some x \<Rightarrow> (0, - x))"

definition order_by_external_rating :: "Recipe list \<Rightarrow> Recipe list" where
  "order_by_external_rating rows = sort_key popularity_key rows"

text \<open>\<open>weightsByProfile.get(profile.id)\<close>: the weights of \<open>allWeights\<close> with that profile id.\<close>

definition weightsByProfile :: "PreferenceWeight list \<Rightarrow> profile_id \<Rightarrow> PreferenceWeight list" where
  "weightsByProfile allWeights pid = filter (\<lambda>w. profile_id w = pid) allWeights"

text \<open>
  \<open>scores[name] = value\<close> on the plain object \<open>scores\<close>: the property is created, or
  overwritten where it is. The name \<open>__proto__\<close> is the accessor of \<open>Object.prototype\<close>,
  whose setter ignores a number, so no property is created for it. The list holds the
  properties in the order of their creation (JavaScript lists a name that is an array
  index before the others).
\<close>

definition object_set :: "(string \<times> real) list \<Rightarrow> string \<Rightarrow> real \<Rightarrow> (string \<times> real) list" where
  "object_set obj name v = (if name = ''__proto__'' then obj else AList.update name v obj)"

text \<open>
  The loop over the profiles for one recipe: the object \<open>scores\<close> (by display name, a later
  profile of the same name overwriting) and the running \<open>minScore\<close>.
\<close>

fun score_profiles ::
  "features \<Rightarrow> PreferenceWeight list \<Rightarrow> (string \<times> real) list \<Rightarrow> number \<Rightarrow> Profile list
   \<Rightarrow> (string \<times> real) list \<times> number"
where
  "score_profiles fs allWeights scoresObj minScore [] = (scoresObj, minScore)"
| "score_profiles fs allWeights scoresObj minScore (profile # rest) =
     (let score = calculateScore fs (weightsByProfile allWeights (p_id profile))
      in score_profiles fs allWeights
           (object_set scoresObj (display_name profile) (round2 score))
           (Math_min minScore score) rest)"

text \<open>The group score of a recipe: \<open>minScore\<close> as the loop leaves it.\<close>

definition family_min_score :: "features \<Rightarrow> PreferenceWeight list \<Rightarrow> Profile list \<Rightarrow> number" where
  "family_min_score fs allWeights profiles = snd (score_profiles fs allWeights [] Infinity profiles)"

text \<open>The loop over the recipes, building \<open>familyScored\<close>.\<close>

fun score_recipes :: "Profile list \<Rightarrow> PreferenceWeight list \<Rightarrow> Recipe list \<Rightarrow> FamilyScoredRecipe list" where
  "score_recipes profiles allWeights [] = []"
| "score_recipes profiles allWeights (recipe # rest) =
     (case score_profiles (r_features recipe) allWeights [] Infinity profiles of
        (scoresObj, minScore) \<Rightarrow>
          if number_ge0 minScore
          then \<lparr>recipe_id = r_id recipe, recipe_name = r_name recipe, image_url = r_image_url recipe,
                min_score = round2_number minScore, scores = scoresObj\<rparr>
               # score_recipes profiles allWeights rest
          else score_recipes profiles allWeights rest)"

text \<open>
  \<open>familyScored.sort((a, b) => b.min_score - a.min_score)\<close>: a stable sort, the highest
  \<open>min_score\<close> first.
\<close>

fun descending_key :: "number \<Rightarrow> nat \<times> real" where
  "descending_key Infinity = (0, 0)"
| "descending_key (Num m) = (1, - m)"

definition sort_by_min_score :: "FamilyScoredRecipe list \<Rightarrow> FamilyScoredRecipe list" where
  "sort_by_min_score familyScored = sort_key (\<lambda>e. descending_key (min_score e)) familyScored"

text \<open>\<open>xs.slice(0, limit)\<close>: a negative \<open>limit\<close> counts from the end.\<close>

definition slice0 :: "'a list \<Rightarrow> int \<Rightarrow> 'a list" where
  "slice0 xs limit =
     (if limit < 0 then take (nat (int (length xs) + limit)) xs else take (nat limit) xs)"

text \<open>
  \<open>getFamilySuggestions(householdId, authHeader, limit)\<close> over the tables it queries.
  A failing query throws; that is outside this model.
\<close>

definition getFamilySuggestions ::
  "Profile list \<Rightarrow> PreferenceWeight list \<Rightarrow> Recipe list \<Rightarrow> string \<Rightarrow> int \<Rightarrow> FamilyScoredRecipe list"
where
  "getFamilySuggestions profiles_table weights_table recipes_table householdId limit =
     (let profiles = filter (\<lambda>p. household_id p = householdId) profiles_table
      in if length profiles = 0 then []
         else
           let profileIds = map p_id profiles;
               allWeights = filter (\<lambda>w. profile_id w \<in> set profileIds) weights_table;
               recipes = take 200 (order_by_external_rating recipes_table);
               familyScored = score_recipes profiles allWeights recipes
           in slice0 (sort_by_min_score familyScored) limit)"

text \<open>
  The group score in the words of the specification: the minimum of the scores of the
  profiles (of a household that has a profile).
\<close>

definition spec_group_score :: "Profile list \<Rightarrow> PreferenceWeight list \<Rightarrow> features \<Rightarrow> real" where
  "spec_group_score profiles allWeights fs =
     Min (set (map (\<lambda>p. calculateScore fs (weightsByProfile allWeights (p_id p))) profiles))"

text \<open>The entry \<open>getFamilySuggestions\<close> pushes for a recipe that passes its test.\<close>

definition family_entry :: "Profile list \<Rightarrow> PreferenceWeight list \<Rightarrow> Recipe \<Rightarrow> FamilyScoredRecipe" where
  "family_entry profiles allWeights recipe =
     \<lparr>recipe_id = r_id recipe, recipe_name = r_name recipe, image_url = r_image_url recipe,
      min_score = round2_number (family_min_score (r_features recipe) allWeights profiles),
      scores = fst (score_profiles (r_features recipe) allWeights [] Infinity profiles)\<rparr>"

section \<open>Family suggestions in SQL: \<open>calculate_recipe_score\<close>, \<open>get_family_suggestions\<close>\<close>

text \<open>
  \<open>SELECT weight INTO user_weight ...; IF user_weight IS NOT NULL THEN total_score := ...\<close>.
  The cast \<open>feature_key::feature_type\<close> of the lookup is taken to be evaluated at every
  lookup.
\<close>

definition add_user_weight :: "preference_weights \<Rightarrow> weight_key \<Rightarrow> real \<Rightarrow> real" where
  "add_user_weight tbl k total_score =
     (case tbl k of None \<Rightarrow> total_score | Some (w, n) \<Rightarrow> total_score + w)"

fun sql_score_array ::
  "preference_weights \<Rightarrow> profile_id \<Rightarrow> string \<Rightarrow> real \<Rightarrow> string list \<Rightarrow> sql_error + real"
where
  "sql_score_array tbl pid feature_key total_score [] = Inr total_score"
| "sql_score_array tbl pid feature_key total_score (ingredient # rest) =
     (case cast_feature_type feature_key of
        None \<Rightarrow> Inl (Invalid_enum_label feature_key)
      | Some ft \<Rightarrow>
          sql_score_array tbl pid feature_key (add_user_weight tbl (pid, ft, ingredient) total_score) rest)"

fun sql_score_features ::
  "preference_weights \<Rightarrow> profile_id \<Rightarrow> real \<Rightarrow> features \<Rightarrow> sql_error + real"
where
  "sql_score_features tbl pid total_score [] = Inr total_score"
| "sql_score_features tbl pid total_score ((feature_key, JArray vals) # rest) =
     (case sql_score_array tbl pid feature_key total_score vals of
        Inl e \<Rightarrow> Inl e
      | Inr total_score' \<Rightarrow> sql_score_features tbl pid total_score' rest)"
| "sql_score_features tbl pid total_score ((feature_key, feature_val) # rest) =
     (case cast_feature_type feature_key of
        None \<Rightarrow> Inl (Invalid_enum_label feature_key)
      | Some ft \<Rightarrow>
          sql_score_features tbl pid
            (add_user_weight tbl (pid, ft, jsonb_text feature_val) total_score) rest)"

text \<open>The \<open>features\<close> column of the recipe with a given id.\<close>

definition features_by_id :: "Recipe list \<Rightarrow> recipe_id \<Rightarrow> features option" where
  "features_by_id recipes_table rid = map_option r_features (find (\<lambda>r. r_id r = rid) recipes_table)"

definition calculate_recipe_score ::
  "preference_weights \<Rightarrow> Recipe list \<Rightarrow> profile_id \<Rightarrow> recipe_id \<Rightarrow> sql_error + real"
where
  "calculate_recipe_score tbl recipes_table p_profile_id p_recipe_id =
     sql_score_features tbl p_profile_id 0 (recipe_features (features_by_id recipes_table) p_recipe_id)"

text \<open>
  The rows of \<open>recipe_scores\<close> for one recipe (\<open>CROSS JOIN household_profiles\<close>), as pairs
  of \<open>pname\<close> and \<open>score\<close>.
\<close>

fun recipe_scores ::
  "preference_weights \<Rightarrow> Recipe list \<Rightarrow> recipe_id \<Rightarrow> Profile list \<Rightarrow> sql_error + (string \<times> real) list"
where
  "recipe_scores tbl recipes_table rid [] = Inr []"
| "recipe_scores tbl recipes_table rid (p # rest) =
     (case calculate_recipe_score tbl recipes_table (p_id p) rid of
        Inl e \<Rightarrow> Inl e
      | Inr score \<Rightarrow>
          (case recipe_scores tbl recipes_table rid rest of
             Inl e \<Rightarrow> Inl e
           | Inr rows \<Rightarrow> Inr ((display_name p, score) # rows)))"

text \<open>
  A row of the result: \<open>recipe_id\<close>, \<open>recipe_name\<close>, \<open>image_url\<close>, \<open>min_score\<close>, \<open>scores\<close>.
\<close>

type_synonym family_row = "recipe_id \<times> string \<times> string option \<times> real \<times> (string \<times> real) list"

text \<open>
  \<open>aggregated\<close>: one group per recipe that has a row in \<open>recipe_scores\<close>, with
  \<open>MIN(score)\<close> and \<open>jsonb_object_agg(pname, score)\<close>.
\<close>

fun aggregated ::
  "preference_weights \<Rightarrow> Recipe list \<Rightarrow> Profile list \<Rightarrow> Recipe list \<Rightarrow> sql_error + family_row list"
where
  "aggregated tbl recipes_table household_profiles [] = Inr []"
| "aggregated tbl recipes_table household_profiles (r # rest) =
     (case recipe_scores tbl recipes_table (r_id r) household_profiles of
        Inl e \<Rightarrow> Inl e
      | Inr rows \<Rightarrow>
          (case aggregated tbl recipes_table household_profiles rest of
             Inl e \<Rightarrow> Inl e
           | Inr groups \<Rightarrow>
               (case rows of
                  [] \<Rightarrow> Inr groups
                | row # others \<Rightarrow>
                    Inr ((r_id r, r_name r, r_image_url r, foldl min (snd row) (map snd others), rows)
                         # groups))))"

text \<open>
  The query of the function:
  \<open>SELECT ... FROM aggregated WHERE min_score > 0 ORDER BY min_score DESC LIMIT p_limit\<close>;
  a negative limit is an error.
\<close>

definition family_suggestions_query ::
  "preference_weights \<Rightarrow> Profile list \<Rightarrow> Recipe list \<Rightarrow> string \<Rightarrow> int \<Rightarrow> sql_error + family_row list"
where
  "family_suggestions_query tbl profiles_table recipes_table p_household_id p_limit =
     (let household_profiles = filter (\<lambda>p. household_id p = p_household_id) profiles_table
      in case aggregated tbl recipes_table household_profiles recipes_table of
           Inl e \<Rightarrow> Inl e
         | Inr groups \<Rightarrow>
             if p_limit < 0 then Inl Negative_limit
             else Inr (take (nat p_limit)
                    (sort_key (\<lambda>g. - fst (snd (snd (snd g))))
                       (filter (\<lambda>g. fst (snd (snd (snd g))) > 0) groups))))"

text \<open>
  PL/pgSQL plans a statement when it first runs it, and a name of the statement that is
  both a variable of the function and a column of the tables it selects from raises
  \<open>column reference is ambiguous\<close> (the default \<open>plpgsql.variable_conflict = error\<close>).
  The result is the first such name among the unqualified column references.
\<close>

definition ambiguous_reference :: "string list \<Rightarrow> string list \<Rightarrow> string list \<Rightarrow> string option" where
  "ambiguous_reference variables columns references =
     find (\<lambda>name. name \<in> set variables \<and> name \<in> set columns) references"

text \<open>
  \<open>get_family_suggestions\<close> of \<open>schema.sql\<close>. Its variables are its parameters and the
  columns of its \<open>RETURNS TABLE\<close>; the final \<open>SELECT\<close> reads from \<open>aggregated\<close>, whose
  columns are \<open>rid\<close>, \<open>rname\<close>, \<open>rimg\<close>, \<open>min_score\<close> and \<open>scores\<close>, and refers to
  \<open>rid\<close>, \<open>rname\<close>, \<open>rimg\<close>, \<open>min_score\<close> and \<open>scores\<close> in its select list and to
  \<open>min_score\<close> in \<open>WHERE\<close> and \<open>ORDER BY\<close>, all unqualified. (The names of the two
  other subqueries are qualified, or are no variables.)
\<close>

definition get_family_suggestions ::
  "preference_weights \<Rightarrow> Profile list \<Rightarrow> Recipe list \<Rightarrow> string \<Rightarrow> int \<Rightarrow> sql_error + family_row list"
where
  "get_family_suggestions tbl profiles_table recipes_table p_household_id p_limit =
     (case ambiguous_reference
             [''p_household_id'', ''p_limit'', ''recipe_id'', ''recipe_name'', ''image_url'',
              ''min_score'', ''scores'']
             [''rid'', ''rname'', ''rimg'', ''min_score'', ''scores'']
             [''rid'', ''rname'', ''rimg'', ''min_score'', ''scores'', ''min_score'', ''min_score''] of
        Some name \<Rightarrow> Inl (Ambiguous_column name)
      | None \<Rightarrow> family_suggestions_query tbl profiles_table recipes_table p_household_id p_limit)"

text \<open>
  The copy of the function in \<open>docs/SUPABASE_SETUP.md\<close> qualifies these references
  (\<open>aggregated.min_score\<close>, \<open>aggregated.scores\<close>), so it runs the query.
\<close>

definition get_family_suggestions_SUPABASE_SETUP ::
  "preference_weights \<Rightarrow> Profile list \<Rightarrow> Recipe list \<Rightarrow> string \<Rightarrow> int \<Rightarrow> sql_error + family_row list"
where
  "get_family_suggestions_SUPABASE_SETUP tbl profiles_table recipes_table p_household_id p_limit =
     (case ambiguous_reference
             [''p_household_id'', ''p_limit'', ''recipe_id'', ''recipe_name'', ''image_url'',
              ''min_score'', ''scores'']
             [''rid'', ''rname'', ''rimg'', ''min_score'', ''scores'']
             [''rid'', ''rname'', ''rimg''] of
        Some name \<Rightarrow> Inl (Ambiguous_column name)
      | None \<Rightarrow> family_suggestions_query tbl profiles_table recipes_table p_household_id p_limit)"

section \<open>The next recipe to rate\<close>

text \<open>The ids of the recipes a profile has rated.\<close>

definition rated_ids :: "rating_row list \<Rightarrow> profile_id \<Rightarrow> recipe_id set" where
  "rated_ids ratings_table pid =
     set (map rating_recipe_id (filter (\<lambda>r. rating_profile_id r = pid) ratings_table))"

text \<open>
  \<open>getNextRecipeToRate(profileId, authHeader)\<close> over the tables \<open>ratings\<close> and \<open>recipes\<close>;
  \<open>random\<close> is the value of \<open>Math.random()\<close>, in \<open>[0, 1)\<close>.
\<close>

definition getNextRecipeToRate :: "rating_row list \<Rightarrow> Recipe list \<Rightarrow> real \<Rightarrow> profile_id \<Rightarrow> Recipe option" where
  "getNextRecipeToRate ratings_table recipes_table random profileId =
     (let ratingCount = length (filter (\<lambda>r. rating_profile_id r = profileId) ratings_table);
          ratedIds = map rating_recipe_id (filter (\<lambda>r. rating_profile_id r = profileId) ratings_table);
          query = (if length ratedIds > 0
                   then filter (\<lambda>r. r_id r \<notin> set ratedIds) recipes_table
                   else recipes_table);
          recipes = (if ratingCount < 20
                     then take 1 (order_by_external_rating query)
                     else take 20 (order_by_external_rating query))
      in if length recipes = 0 then None
         else if ratingCount \<ge> 20
           then Some (recipes ! nat \<lfloor>random * real (length recipes)\<rfloor>)
           else Some (recipes ! 0))"

text \<open>
  The handler of \<open>GET /api/recipes/next\<close> reads the query parameter \<open>exclude\<close> and calls
  \<open>getNextRecipeToRate(profile.id, authHeader, excludeId || undefined)\<close>; the function
  declares two parameters, so the third argument is dropped.
\<close>

definition GET_recipes_next ::
  "rating_row list \<Rightarrow> Recipe list \<Rightarrow> real \<Rightarrow> profile_id \<Rightarrow> recipe_id option \<Rightarrow> Recipe option"
where
  "GET_recipes_next ratings_table recipes_table random profileId excludeId =
     getNextRecipeToRate ratings_table recipes_table random profileId"

text \<open>
  The SQL function \<open>get_next_recipe_to_rate\<close>:
  \<open>ORDER BY r.external_rating DESC NULLS LAST, RANDOM() LIMIT 1\<close>, where \<open>random r\<close> is
  the value \<open>RANDOM()\<close> takes for row \<open>r\<close>.
\<close>

definition get_next_recipe_to_rate ::
  "rating_row list \<Rightarrow> Recipe list \<Rightarrow> (Recipe \<Rightarrow> real) \<Rightarrow> profile_id \<Rightarrow> Recipe list"
where
  "get_next_recipe_to_rate ratings_table recipes_table random p_profile_id =
     take 1
       (sort_key (\<lambda>r. (popularity_key r, random r))
          (filter (\<lambda>r. \<not> (\<exists>rt\<in>set ratings_table.
                              rating_recipe_id rt = r_id r \<and> rating_profile_id rt = p_profile_id))
             recipes_table))"

section \<open>Feature extraction: \<open>extractFeatures\<close>\<close>

text \<open>\<open>Ingredient\<close> of \<open>types.ts\<close>.\<close>

record Ingredient =
  amount :: string
  ingredient :: string
  unit :: "string option"

text \<open>
  \<open>String.prototype.toLowerCase\<close> on the Latin-1 range: \<open>A\<close>--\<open>Z\<close> and the accented
  capitals \<open>0xC0\<close>--\<open>0xDE\<close> (but not the multiplication sign \<open>0xD7\<close>) move up by \<open>0x20\<close>.
\<close>

definition toLowerCase_char :: "char \<Rightarrow> char" where
  "toLowerCase_char c =
     (let n = (of_char c :: nat)
      in if (65 \<le> n \<and> n \<le> 90) \<or> (192 \<le> n \<and> n \<le> 222 \<and> n \<noteq> 215)
         then char_of (n + 32) else c)"

definition toLowerCase :: "string \<Rightarrow> string" where
  "toLowerCase s = map toLowerCase_char s"

text \<open>\<open>allText.includes(keyword)\<close>: the keyword occurs as a substring.\<close>

fun js_includes :: "string \<Rightarrow> string \<Rightarrow> bool" where
  "js_includes [] keyword = (keyword = [])"
| "js_includes (c # cs) keyword = (prefix keyword (c # cs) \<or> js_includes cs keyword)"

text \<open>\<open>[...].join(' ')\<close>\<close>

fun join_space :: "string list \<Rightarrow> string" where
  "join_space [] = []"
| "join_space [x] = x"
| "join_space (x # y # ys) = x @ '' '' @ join_space (y # ys)"

text \<open>The white space of \<open>trim\<close> and of \<open>\s\<close>, within Latin-1.\<close>

definition isspace :: "char \<Rightarrow> bool" where
  "isspace c = (c \<in> set [CHR 0x09, CHR 0x0A, CHR 0x0B, CHR 0x0C, CHR 0x0D, CHR 0x20, CHR 0xA0])"

definition trim :: "string \<Rightarrow> string" where
  "trim s = rev (dropWhile isspace (rev (dropWhile isspace s)))"

text \<open>The keyword tables, in the order of their object literals.\<close>

definition PROTEIN_KEYWORDS :: "(string \<times> string) list" where
  "PROTEIN_KEYWORDS =
     [(''n'' @ [CHR 0xF6] @ ''tf'' @ [CHR 0xE4] @ ''rs'', ''beef''),
      (''k'' @ [CHR 0xF6] @ ''ttf'' @ [CHR 0xE4] @ ''rs'', ''beef''),
      (''fl'' @ [CHR 0xE4] @ ''skf'' @ [CHR 0xE4] @ ''rs'', ''pork''),
      (''blandf'' @ [CHR 0xE4] @ ''rs'', ''mixed_meat''),
      (''kyckling'', ''chicken''),
      (''kycklingfil'' @ [CHR 0xE9], ''chicken''),
      (''lax'', ''salmon''),
      (''torsk'', ''cod''),
      (''r'' @ [CHR 0xE4] @ ''kor'', ''shrimp''),
      (''fisk'', ''fish''),
      (''bacon'', ''pork''),
      (''skinka'', ''ham''),
      (''korv'', ''sausage''),
      ([CHR 0xE4] @ ''gg'', ''egg''),
      (''tofu'', ''tofu''),
      (''linser'', ''lentils''),
      (''b'' @ [CHR 0xF6] @ ''nor'', ''beans''),
      (''kik'' @ [CHR 0xE4] @ ''rtor'', ''chickpeas''),
      (''fl'' @ [CHR 0xE4] @ ''sk'', ''pork''),
      (''lamm'', ''lamb''),
      (''beef'', ''beef''),
      (''chicken'', ''chicken''),
      (''pork'', ''pork''),
      (''salmon'', ''salmon''),
      (''fish'', ''fish''),
      (''shrimp'', ''shrimp''),
      (''egg'', ''egg''),
      (''eggs'', ''egg'')]"

definition CARB_KEYWORDS :: "(string \<times> string) list" where
  "CARB_KEYWORDS =
     [(''pasta'', ''pasta''),
      (''spaghetti'', ''pasta''),
      (''penne'', ''pasta''),
      (''tagliatelle'', ''pasta''),
      (''ris'', ''rice''),
      (''rice'', ''rice''),
      (''potatis'', ''potato''),
      (''potato'', ''potato''),
      (''br'' @ [CHR 0xF6] @ ''d'', ''bread''),
      (''bread'', ''bread''),
      (''couscous'', ''couscous''),
      (''nudlar'', ''noodles''),
      (''noodles'', ''noodles''),
      (''bulgur'', ''bulgur''),
      (''quinoa'', ''quinoa'')]"

definition CUISINE_KEYWORDS :: "(string \<times> string) list" where
  "CUISINE_KEYWORDS =
     [(''sojas'' @ [CHR 0xE5] @ ''s'', ''asian''),
      (''soy sauce'', ''asian''),
      (''ingef'' @ [CHR 0xE4] @ ''ra'', ''asian''),
      (''ginger'', ''asian''),
      (''wasabi'', ''japanese''),
      (''miso'', ''japanese''),
      (''curry'', ''indian''),
      (''garam masala'', ''indian''),
      (''tikka'', ''indian''),
      (''tandoori'', ''indian''),
      (''taco'', ''mexican''),
      (''salsa'', ''mexican''),
      (''tortilla'', ''mexican''),
      (''parmesan'', ''italian''),
      (''mozzarella'', ''italian''),
      (''basilika'', ''italian''),
      (''pesto'', ''italian''),
      (''feta'', ''greek''),
      (''tzatziki'', ''greek''),
      (''hummus'', ''middle_eastern''),
      (''tahini'', ''middle_eastern''),
      (''harissa'', ''middle_eastern''),
      (''lingon'', ''swedish''),
      (''dill'', ''swedish''),
      (''gr'' @ [CHR 0xE4] @ ''dde'', ''swedish''),
      (''cream'', ''swedish'')]"

definition SPICE_INDICATORS :: "(string \<times> string) list" where
  "SPICE_INDICATORS =
     [(''chili'', ''hot''),
      (''jalape'' @ [CHR 0xF1] @ ''o'', ''hot''),
      (''habanero'', ''hot''),
      (''sriracha'', ''hot''),
      (''cayenne'', ''hot''),
      (''sambal'', ''hot''),
      (''curry'', ''medium''),
      (''paprika'', ''mild''),
      (''peppar'', ''mild''),
      (''pepper'', ''mild'')]"

text \<open>The descriptor words of the two regular expressions of \<open>normalizeIngredient\<close>.\<close>

definition descriptors :: "string list" where
  "descriptors =
     [''f'' @ [CHR 0xE4] @ ''rsk'',
      ''hackad'',
      ''strimlad'',
      ''skivad'',
      ''riven'',
      ''kokt'',
      ''stekt'',
      ''t'' @ [CHR 0xE4] @ ''rnad'']"

text \<open>
  \<open>.replace(/^(d1|d2|...)\s+/, '')\<close>: the first descriptor that starts the string and is
  followed by white space is removed together with all the white space after it.
\<close>

fun strip_leading_descriptor :: "string list \<Rightarrow> string \<Rightarrow> string" where
  "strip_leading_descriptor [] s = s"
| "strip_leading_descriptor (d # ds) s =
     (let r = drop (length d) s
      in if prefix d s \<and> r \<noteq> [] \<and> isspace (hd r) then dropWhile isspace r
         else strip_leading_descriptor ds s)"

text \<open>
  \<open>.replace(/\s+(d1|d2|...)$/, '')\<close>: a descriptor that ends the string is removed together
  with the run of white space before it, if there is one. No descriptor contains white
  space or ends another, so this is the leading case on the reversed string.
\<close>

definition strip_trailing_descriptor :: "string list \<Rightarrow> string \<Rightarrow> string" where
  "strip_trailing_descriptor ds s = rev (strip_leading_descriptor (map rev ds) (rev s))"

text \<open>
  \<open>/\s*\([^)]*\)\s*/\<close> at the start of a string: optional white space, an opening
  parenthesis, everything up to the first closing one, and the white space after it;
  the result is what follows the match.
\<close>

definition match_parenthetical :: "string \<Rightarrow> string option" where
  "match_parenthetical s =
     (case dropWhile isspace s of
        [] \<Rightarrow> None
      | c # r \<Rightarrow>
          if c = CHR ''('' \<and> CHR '')'' \<in> set r
          then Some (dropWhile isspace (tl (dropWhile (\<lambda>x. x \<noteq> CHR '')'') r)))
          else None)"

lemma match_parenthetical_shorter [termination_simp]:
  "match_parenthetical (c # cs) = Some rest \<Longrightarrow> length rest < Suc (length cs)"
proof -
  assume m: "match_parenthetical (c # cs) = Some rest"
  then obtain r where r: "dropWhile isspace (c # cs) = CHR ''('' # r"
    and rest: "rest = dropWhile isspace (tl (dropWhile (\<lambda>x. x \<noteq> CHR '')'') r))"
    by (auto simp: match_parenthetical_def split: list.splits if_splits)
  have "length rest \<le> length (tl (dropWhile (\<lambda>x. x \<noteq> CHR '')'') r))"
    unfolding rest by (rule length_dropWhile_le)
  also have "\<dots> \<le> length (dropWhile (\<lambda>x. x \<noteq> CHR '')'') r)" by simp
  also have "\<dots> \<le> length r" by (rule length_dropWhile_le)
  also have "\<dots> < length (dropWhile isspace (c # cs))" unfolding r by simp
  also have "\<dots> \<le> length (c # cs)" by (rule length_dropWhile_le)
  finally show ?thesis by simp
qed

text \<open>\<open>.replace(/\s*\([^)]*\)\s*/g, '')\<close>: every match, left to right, is removed.\<close>

fun strip_parentheticals :: "string \<Rightarrow> string" where
  "strip_parentheticals [] = []"
| "strip_parentheticals (c # cs) =
     (case match_parenthetical (c # cs) of
        Some rest \<Rightarrow> strip_parentheticals rest
      | None \<Rightarrow> c # strip_parentheticals cs)"

definition normalizeIngredient :: "string \<Rightarrow> string" where
  "normalizeIngredient s =
     trim (strip_parentheticals
       (strip_trailing_descriptor descriptors
         (strip_leading_descriptor descriptors (trim (toLowerCase s)))))"

text \<open>The loop over \<open>PROTEIN_KEYWORDS\<close>, adding to the set \<open>proteins\<close> (in insertion order).\<close>

definition Set_add :: "string list \<Rightarrow> string \<Rightarrow> string list" where
  "Set_add xs x = (if x \<in> set xs then xs else xs @ [x])"

fun extract_proteins :: "string \<Rightarrow> string list \<Rightarrow> (string \<times> string) list \<Rightarrow> string list" where
  "extract_proteins allText proteins [] = proteins"
| "extract_proteins allText proteins ((keyword, protein) # rest) =
     extract_proteins allText
       (if js_includes allText (toLowerCase keyword) then Set_add proteins protein else proteins) rest"

text \<open>The loop over \<open>CARB_KEYWORDS\<close>, which breaks at the first match.\<close>

fun extract_carb :: "string \<Rightarrow> (string \<times> string) list \<Rightarrow> string option" where
  "extract_carb allText [] = None"
| "extract_carb allText ((keyword, carb) # rest) =
     (if js_includes allText (toLowerCase keyword) then Some carb else extract_carb allText rest)"

text \<open>
  The loop over \<open>CUISINE_KEYWORDS\<close>:
  \<open>cuisineCounts[cuisine] = (cuisineCounts[cuisine] || 0) + 1\<close>. The object keeps its keys
  in the order of their first assignment.
\<close>

definition increment :: "(string \<times> nat) list \<Rightarrow> string \<Rightarrow> (string \<times> nat) list" where
  "increment cuisineCounts cuisine =
     AList.update cuisine
       ((case map_of cuisineCounts cuisine of None \<Rightarrow> 0 | Some n \<Rightarrow> n) + 1) cuisineCounts"

fun count_cuisines :: "string \<Rightarrow> (string \<times> nat) list \<Rightarrow> (string \<times> string) list \<Rightarrow> (string \<times> nat) list" where
  "count_cuisines allText cuisineCounts [] = cuisineCounts"
| "count_cuisines allText cuisineCounts ((keyword, cuisine) # rest) =
     count_cuisines allText
       (if js_includes allText (toLowerCase keyword) then increment cuisineCounts cuisine
        else cuisineCounts) rest"

text \<open>
  \<open>Object.entries(cuisineCounts).sort((a, b) => b[1] - a[1])[0]\<close>: a stable sort, the
  highest count first, and its first entry if there is one.
\<close>

definition detect_cuisine :: "string \<Rightarrow> (string \<times> string) list \<Rightarrow> string option" where
  "detect_cuisine allText keywords =
     (case sort_key (\<lambda>e. - int (snd e)) (count_cuisines allText [] keywords) of
        [] \<Rightarrow> None
      | topCuisine # others \<Rightarrow> Some (fst topCuisine))"

text \<open>The loop over \<open>SPICE_INDICATORS\<close>, which breaks at the first \<open>hot\<close> match.\<close>

fun detect_spice :: "string \<Rightarrow> string \<Rightarrow> (string \<times> string) list \<Rightarrow> string" where
  "detect_spice allText spiceLevel [] = spiceLevel"
| "detect_spice allText spiceLevel ((keyword, level) # rest) =
     (if js_includes allText (toLowerCase keyword)
      then (if level = ''hot'' then ''hot''
            else if level = ''medium'' then detect_spice allText ''medium'' rest
            else detect_spice allText spiceLevel rest)
      else detect_spice allText spiceLevel rest)"

text \<open>\<open>(prepTime || 0) + (cookTime || 0)\<close> and the bucket of a positive total.\<close>

definition prep_time_bucket :: "real option \<Rightarrow> real option \<Rightarrow> string option" where
  "prep_time_bucket prepTime cookTime =
     (let totalTime = (case prepTime of None \<Rightarrow> 0 | Some x \<Rightarrow> x)
                    + (case cookTime of None \<Rightarrow> 0 | Some x \<Rightarrow> x)
      in if totalTime > 0
         then (if totalTime \<le> 30 then Some ''quick''
               else if totalTime \<le> 60 then Some ''medium''
               else Some ''long'')
         else None)"

text \<open>
  \<open>extractFeatures(ingredients, recipeName, prepTime, cookTime)\<close>; the result lists the
  properties of the object \<open>features\<close> in the order of their assignment.
\<close>

definition extractFeatures :: "Ingredient list \<Rightarrow> string \<Rightarrow> real option \<Rightarrow> real option \<Rightarrow> features" where
  "extractFeatures ingredients recipeName prepTime cookTime =
     (let allText = join_space (toLowerCase recipeName # map (\<lambda>i. toLowerCase (ingredient i)) ingredients);
          proteins = extract_proteins allText [] PROTEIN_KEYWORDS;
          keyIngredients =
            take 10 (filter (\<lambda>i. length i > 2) (map (\<lambda>i. normalizeIngredient (ingredient i)) ingredients))
      in (if length proteins > 0 then [(''protein'', JArray proteins)] else [])
         @ (case extract_carb allText CARB_KEYWORDS of
              None \<Rightarrow> [] | Some carb \<Rightarrow> [(''carb'', JString carb)])
         @ (case detect_cuisine allText CUISINE_KEYWORDS of
              None \<Rightarrow> [] | Some cuisine \<Rightarrow> [(''cuisine'', JString cuisine)])
         @ [(''spice_level'', JString (detect_spice allText ''mild'' SPICE_INDICATORS))]
         @ (case prep_time_bucket prepTime cookTime of
              None \<Rightarrow> [] | Some bucket \<Rightarrow> [(''prep_time_bucket'', JString bucket)])
         @ (if length keyIngredients > 0 then [(''ingredients'', JArray keyIngredients)] else []))"

text \<open>
  The cuisine in the words of the specification: among the cuisines of the matching
  keywords, the one with the most matching keywords, the first encountered in table
  order if several have the most; none if no keyword matches.
\<close>

definition matching_cuisines :: "string \<Rightarrow> (string \<times> string) list \<Rightarrow> string list" where
  "matching_cuisines allText keywords =
     map snd (filter (\<lambda>kc. js_includes allText (toLowerCase (fst kc))) keywords)"

definition spec_cuisine :: "string \<Rightarrow> (string \<times> string) list \<Rightarrow> string option" where
  "spec_cuisine allText keywords =
     (let matched = matching_cuisines allText keywords
      in find (\<lambda>c. \<forall>c'\<in>set matched. count_list matched c' \<le> count_list matched c) matched)"

section \<open>Example inputs\<close>

text \<open>
  A small catalog: an Indian dish, a salmon dish whose features hold no key ingredients,
  and the salmon fillet with dill sauce of \<open>sql/seed-recipes.sql\<close>, whose features hold
  them under \<open>ingredients\<close> as \<open>extractFeatures\<close> stores them; the keys are in the order
  of \<open>jsonb_each\<close> (shorter keys first).
\<close>

definition example_recipes :: "recipe_id \<Rightarrow> features option" where
  "example_recipes rid =
     (if rid = ''r1'' then Some [(''cuisine'', JString ''indian'')]
      else if rid = ''r2'' then Some [(''cuisine'', JString ''swedish''), (''protein'', JArray [''salmon''])]
      else if rid = ''r4'' then
        Some [(''cuisine'', JString ''swedish''), (''protein'', JArray [''salmon'']),
              (''ingredients'', JArray [''lax'', ''gr'' @ [CHR 0xE4] @ ''dde'', ''dill'', ''senap'', ''citron'']),
              (''spice_level'', JString ''mild''), (''prep_time_bucket'', JString ''medium'')]
      else None)"

definition hated_r1 :: rating_row where
  "hated_r1 = \<lparr>rating_profile_id = ''p1'', rating_recipe_id = ''r1'', rating = Hated,
                excluded_ingredients = Some []\<rparr>"

definition loved_r1_without_lax :: rating_row where
  "loved_r1_without_lax = \<lparr>rating_profile_id = ''p1'', rating_recipe_id = ''r1'', rating = Loved,
                excluded_ingredients = Some [''lax'']\<rparr>"

definition liked_r2_without_lax :: rating_row where
  "liked_r2_without_lax = \<lparr>rating_profile_id = ''p1'', rating_recipe_id = ''r2'', rating = Liked,
                excluded_ingredients = Some [''lax'']\<rparr>"

definition liked_r4_without_lax :: rating_row where
  "liked_r4_without_lax = \<lparr>rating_profile_id = ''p1'', rating_recipe_id = ''r4'', rating = Liked,
                excluded_ingredients = Some [''lax'']\<rparr>"

definition lax_half :: preference_weights where
  "lax_half = (\<lambda>k. None)((''p1'', Ingredient, ''lax'') \<mapsto> (0.5, 3))"

definition indian_at_floor :: preference_weights where
  "indian_at_floor = (\<lambda>k. None)((''p1'', Cuisine, json_string_text ''indian'') \<mapsto> (- 1, 7))"

definition indian_at_ceiling :: preference_weights where
  "indian_at_ceiling = (\<lambda>k. None)((''p1'', Cuisine, json_string_text ''indian'') \<mapsto> (1, 7))"

text \<open>
  A recipe's features and one profile's weights, as JavaScript reads them from the rows
  \<open>0.150\<close>, \<open>0.080\<close> and \<open>0.900\<close>; the chicken weight matches nothing.
\<close>

definition example_features :: features where
  "example_features =
     [(''cuisine'', JString ''swedish''), (''protein'', JArray [''beef'', ''pork'']), (''carb'', JNull)]"

definition example_weights :: "PreferenceWeight list" where
  "example_weights =
     [\<lparr>profile_id = ''p1'', feature_type = ''cuisine'', feature_value = ''swedish'', weight = binary64 0.15, sample_count = 4\<rparr>,
      \<lparr>profile_id = ''p1'', feature_type = ''protein'', feature_value = ''pork'', weight = binary64 0.08, sample_count = 2\<rparr>,
      \<lparr>profile_id = ''p1'', feature_type = ''protein'', feature_value = ''chicken'', weight = binary64 0.9, sample_count = 9\<rparr>]"

text \<open>Features whose array lists the same element twice, and a weight for that element.\<close>

definition doubled_features :: features where
  "doubled_features = [(''protein'', JArray [''beef'', ''beef''])]"

definition beef_weight :: "PreferenceWeight list" where
  "beef_weight =
     [\<lparr>profile_id = ''p1'', feature_type = ''protein'', feature_value = ''beef'', weight = 0.5, sample_count = 1\<rparr>]"

text \<open>
  A household of three and an outsider; Lisa dislikes fish, everyone likes pasta. The
  catalog holds a fish dish, a pasta dish and a dish without features.
\<close>

definition family_profiles :: "Profile list" where
  "family_profiles =
     [\<lparr>p_id = ''p1'', household_id = ''h1'', display_name = ''Lisa''\<rparr>,
      \<lparr>p_id = ''p2'', household_id = ''h1'', display_name = ''Erik''\<rparr>,
      \<lparr>p_id = ''p9'', household_id = ''h2'', display_name = ''Guest''\<rparr>,
      \<lparr>p_id = ''p3'', household_id = ''h1'', display_name = ''Kids''\<rparr>]"

definition family_weights :: "PreferenceWeight list" where
  "family_weights =
     [\<lparr>profile_id = ''p1'', feature_type = ''carb'', feature_value = ''pasta'', weight = binary64 0.8, sample_count = 9\<rparr>,
      \<lparr>profile_id = ''p1'', feature_type = ''protein'', feature_value = ''fish'', weight = binary64 (- 0.6), sample_count = 5\<rparr>,
      \<lparr>profile_id = ''p2'', feature_type = ''carb'', feature_value = ''pasta'', weight = binary64 0.7, sample_count = 8\<rparr>,
      \<lparr>profile_id = ''p2'', feature_type = ''protein'', feature_value = ''fish'', weight = 0.5, sample_count = 4\<rparr>,
      \<lparr>profile_id = ''p3'', feature_type = ''carb'', feature_value = ''pasta'', weight = binary64 0.9, sample_count = 7\<rparr>,
      \<lparr>profile_id = ''p3'', feature_type = ''protein'', feature_value = ''fish'', weight = 0, sample_count = 1\<rparr>,
      \<lparr>profile_id = ''p9'', feature_type = ''protein'', feature_value = ''fish'', weight = - 1, sample_count = 9\<rparr>]"

definition fish_dish :: Recipe where
  "fish_dish = \<lparr>r_id = ''fish'', r_name = ''Fish and chips'', r_image_url = None,
     r_features = [(''protein'', JArray [''fish''])], external_rating = Some 4.8\<rparr>"

definition pasta_dish :: Recipe where
  "pasta_dish = \<lparr>r_id = ''pasta'', r_name = ''Carbonara'', r_image_url = None,
     r_features = [(''carb'', JString ''pasta'')], external_rating = Some 4.6\<rparr>"

definition plain_dish :: Recipe where
  "plain_dish = \<lparr>r_id = ''plain'', r_name = ''Toast'', r_image_url = None,
     r_features = [], external_rating = None\<rparr>"

text \<open>
  A household of one whose scores for two dishes differ in the third decimal, and the
  two dishes, the lower-scored one the more popular.
\<close>

definition solo_profiles :: "Profile list" where
  "solo_profiles = [\<lparr>p_id = ''p5'', household_id = ''h3'', display_name = ''Ann''\<rparr>]"

definition solo_weights :: "PreferenceWeight list" where
  "solo_weights =
     [\<lparr>profile_id = ''p5'', feature_type = ''cuisine'', feature_value = ''greek'', weight = binary64 0.121, sample_count = 3\<rparr>,
      \<lparr>profile_id = ''p5'', feature_type = ''cuisine'', feature_value = ''indian'', weight = binary64 0.124, sample_count = 3\<rparr>]"

definition greek_dish :: Recipe where
  "greek_dish = \<lparr>r_id = ''greek'', r_name = ''Moussaka'', r_image_url = None,
     r_features = [(''cuisine'', JString ''greek'')], external_rating = Some 4.9\<rparr>"

definition indian_dish :: Recipe where
  "indian_dish = \<lparr>r_id = ''indian'', r_name = ''Dal'', r_image_url = None,
     r_features = [(''cuisine'', JString ''indian'')], external_rating = Some 4.1\<rparr>"

text \<open>
  Two dishes with the same external rating, and two profiles that have both rated the
  fish dish and nothing else.
\<close>

definition tied_dish_a :: Recipe where
  "tied_dish_a = \<lparr>r_id = ''a'', r_name = ''Lasagne'', r_image_url = None,
     r_features = [], external_rating = Some 4.8\<rparr>"

definition tied_dish_b :: Recipe where
  "tied_dish_b = \<lparr>r_id = ''b'', r_name = ''Tacos'', r_image_url = None,
     r_features = [], external_rating = Some 4.8\<rparr>"

definition fish_ratings :: "rating_row list" where
  "fish_ratings =
     [\<lparr>rating_profile_id = ''p1'', rating_recipe_id = ''fish'', rating = Hated, excluded_ingredients = Some []\<rparr>,
      \<lparr>rating_profile_id = ''p2'', rating_recipe_id = ''fish'', rating = Liked, excluded_ingredients = Some []\<rparr>]"

text \<open>
  A recipe whose text matches two Italian keywords (\<open>parmesan\<close>, \<open>pesto\<close>) and two
  Swedish ones (\<open>lingon\<close>, \<open>dill\<close>); \<open>parmesan\<close> comes first in the table.
\<close>

definition tie_ingredients :: "Ingredient list" where
  "tie_ingredients =
     [\<lparr>amount = ''1 dl'', ingredient = ''Pesto'', unit = None\<rparr>,
      \<lparr>amount = ''1 knippe'', ingredient = ''Hackad dill'', unit = None\<rparr>]"

definition tie_name :: string where
  "tie_name = ''Lingon med parmesan''"

text \<open>
  A salmon recipe, and the weights of a profile that liked its protein and once excluded
  \<open>lax\<close>.
\<close>

definition salmon_ingredients :: "Ingredient list" where
  "salmon_ingredients =
     [\<lparr>amount = ''400 g'', ingredient = ''Lax'', unit = None\<rparr>,
      \<lparr>amount = ''2 dl'', ingredient = ''Ris'', unit = None\<rparr>]"

definition salmon_weights :: "PreferenceWeight list" where
  "salmon_weights =
     [\<lparr>profile_id = ''p1'', feature_type = ''protein'', feature_value = ''salmon'', weight = binary64 0.3, sample_count = 2\<rparr>,
      \<lparr>profile_id = ''p1'', feature_type = ''ingredient'', feature_value = ''lax'', weight = binary64 (- 0.2), sample_count = 1\<rparr>]"

section \<open>Properties of the rounding to binary64\<close>

text \<open>
  The exponent brackets its argument between two powers of two, and \<open>binary64\<close> moves
  a number by at most half the spacing of the values around it.
\<close>

lemma bit_length_upper: "n < 2 ^ bit_length n"
proof (induction n rule: bit_length.induct)
  case (1 n)
  show ?case
  proof (cases "n = 0")
    case True
    then show ?thesis by (simp add: bit_length.simps)
  next
    case False
    from 1 [OF False] have "n div 2 < 2 ^ bit_length (n div 2)" .
    then have "n < 2 * 2 ^ bit_length (n div 2)" by linarith
    then show ?thesis using False by (subst bit_length.simps) simp
  qed
qed

lemma bit_length_lower: "0 < n \<Longrightarrow> 2 ^ (bit_length n - 1) \<le> n"
proof (induction n rule: bit_length.induct)
  case (1 n)
  then have n: "n \<noteq> 0" by simp
  have bl: "bit_length n = Suc (bit_length (n div 2))"
    using n by (subst bit_length.simps) simp
  show ?case
  proof (cases "n div 2 = 0")
    case True
    then have "bit_length (n div 2) = 0" by (simp add: bit_length.simps)
    then show ?thesis using bl 1(2) by simp
  next
    case False
    then have pos: "0 < n div 2" by simp
    from 1(1) [OF n pos] have ih: "2 ^ (bit_length (n div 2) - 1) \<le> n div 2" .
    have "bit_length (n div 2) \<noteq> 0"
      using False by (subst bit_length.simps) simp
    then obtain k where k: "bit_length (n div 2) = Suc k" by (cases "bit_length (n div 2)") auto
    have "(2::nat) ^ Suc k \<le> 2 * (n div 2)"
      using ih k by simp
    also have "\<dots> \<le> n" by simp
    finally show ?thesis using bl k by simp
  qed
qed

lemma exponent_bounds:
  assumes "0 < x"
  shows "2 powi exponent x \<le> x \<and> x < 2 powi (exponent x + 1)"
proof (cases "1 \<le> x")
  case True
  define n where "n = nat \<lfloor>x\<rfloor>"
  have n: "0 < n" "real n \<le> x" "x < real n + 1"
    using True by (auto simp: n_def)
  have e: "exponent x = int (bit_length n) - 1"
    using True by (simp add: exponent_def n_def)
  have bl: "bit_length n \<noteq> 0"
    using n(1) by (subst bit_length.simps) simp
  then obtain k where k: "bit_length n = Suc k" by (cases "bit_length n") auto
  have "(2::nat) ^ k \<le> n" using bit_length_lower [OF n(1)] k by simp
  then have r1: "(2::real) ^ k \<le> real n"
    by (metis of_nat_le_iff of_nat_numeral of_nat_power)
  have p1: "2 powi exponent x = (2::real) ^ k"
    using e k by (simp add: power_int_def)
  have lo: "2 powi exponent x \<le> x"
    unfolding p1 using r1 n(2) by linarith
  have "n < 2 ^ Suc k" using bit_length_upper [of n] k by simp
  then have "n + 1 \<le> 2 ^ Suc k" by simp
  then have "real (n + 1) \<le> (2::real) ^ Suc k"
    by (metis of_nat_le_iff of_nat_numeral of_nat_power)
  then have r2: "real n + 1 \<le> (2::real) ^ Suc k"
    by simp
  have e1: "exponent x + 1 = int (Suc k)"
    using e k by simp
  have p2: "2 powi (exponent x + 1) = (2::real) ^ Suc k"
    unfolding e1 by (rule power_int_of_nat)
  have hi: "x < 2 powi (exponent x + 1)"
    unfolding p2 using r2 n(3) by linarith
  from lo hi show ?thesis ..
next
  case False
  define y where "y = 1 / x"
  have y: "1 < y" using False assms by (simp add: y_def)
  define m where "m = nat (\<lceil>y\<rceil> - 1)"
  have c: "2 \<le> \<lceil>y\<rceil>" using y by linarith
  have m: "0 < m" "real m < y" "y \<le> real m + 1"
    using c by (auto simp: m_def) linarith+
  have e: "exponent x = - int (bit_length m)"
    using False by (simp add: exponent_def m_def y_def)
  have bl: "bit_length m \<noteq> 0"
    using m(1) by (subst bit_length.simps) simp
  then obtain k where k: "bit_length m = Suc k" by (cases "bit_length m") auto
  have "(2::nat) ^ k \<le> m" using bit_length_lower [OF m(1)] k by simp
  then have r1: "(2::real) ^ k \<le> real m"
    by (metis of_nat_le_iff of_nat_numeral of_nat_power)
  have a: "(2::real) ^ k < y" using r1 m(2) by linarith
  have "m < 2 ^ Suc k" using bit_length_upper [of m] k by simp
  then have "m + 1 \<le> 2 ^ Suc k" by simp
  then have "real (m + 1) \<le> (2::real) ^ Suc k"
    by (metis of_nat_le_iff of_nat_numeral of_nat_power)
  then have r2: "real m + 1 \<le> (2::real) ^ Suc k"
    by simp
  have b: "y \<le> (2::real) ^ Suc k" using r2 m(3) by linarith
  have x: "x = 1 / y" using assms by (simp add: y_def)
  have p1: "2 powi exponent x = 1 / (2::real) ^ Suc k"
    unfolding e k by (simp only: power_int_minus power_int_of_nat inverse_eq_divide)
  have e1: "exponent x + 1 = - int k"
    using e k by simp
  have p2: "2 powi (exponent x + 1) = 1 / (2::real) ^ k"
    unfolding e1 by (simp only: power_int_minus power_int_of_nat inverse_eq_divide)
  have "1 / (2::real) ^ Suc k \<le> 1 / y"
    using b y by (intro divide_left_mono) auto
  then have "2 powi exponent x \<le> 1 / y"
    unfolding p1 .
  then have lo: "2 powi exponent x \<le> x"
    using x by linarith
  have "1 / y < 1 / (2::real) ^ k"
    using a y by (intro divide_strict_left_mono) auto
  then have "1 / y < 2 powi (exponent x + 1)"
    unfolding p2 .
  then have hi: "x < 2 powi (exponent x + 1)"
    using x by linarith
  from lo hi show ?thesis ..
qed

lemma round_half_even_near: "\<bar>of_int (round_half_even y) - y\<bar> \<le> 1 / 2"
  unfolding round_half_even_def Let_def by (auto simp: abs_if) linarith+

lemma binary64_near:
  assumes "x \<noteq> 0"
  shows "\<bar>binary64 x - x\<bar> \<le> 2 powi (max (exponent \<bar>x\<bar>) (- 1022) - 53)"
proof -
  define q :: real where "q = 2 powi (max (exponent \<bar>x\<bar>) (- 1022) - 52)"
  have q: "0 < q" by (simp add: q_def)
  have "binary64 x - x = (of_int (round_half_even (x / q)) - x / q) * q"
    using assms q by (simp add: binary64_def Let_def q_def [symmetric] field_simps)
  then have "\<bar>binary64 x - x\<bar> = \<bar>of_int (round_half_even (x / q)) - x / q\<bar> * q"
    using q by (simp add: abs_mult)
  also have "\<dots> \<le> 1 / 2 * q"
    using round_half_even_near [of "x / q"] q by (intro mult_right_mono) auto
  also have "\<dots> = 2 powi (max (exponent \<bar>x\<bar>) (- 1022) - 53)"
    unfolding q_def by (simp add: power_int_diff)
  finally show ?thesis .
qed

text \<open>
  Rounding to binary64 keeps the order of the numbers, and so does the rounding to two
  decimals.
\<close>

lemma round_half_even_mono: "x \<le> y \<Longrightarrow> round_half_even x \<le> round_half_even y"
proof (cases "\<lfloor>x\<rfloor> = \<lfloor>y\<rfloor>")
  case True
  assume "x \<le> y"
  then show ?thesis
    unfolding round_half_even_def Let_def True by auto
next
  case False
  assume "x \<le> y"
  then have "\<lfloor>x\<rfloor> \<le> \<lfloor>y\<rfloor>" by (rule floor_mono)
  with False have lt: "\<lfloor>x\<rfloor> + 1 \<le> \<lfloor>y\<rfloor>" by simp
  have "round_half_even x \<le> \<lfloor>x\<rfloor> + 1"
    unfolding round_half_even_def Let_def by auto
  moreover have "\<lfloor>y\<rfloor> \<le> round_half_even y"
    unfolding round_half_even_def Let_def by auto
  ultimately show ?thesis using lt by linarith
qed

lemma round_half_even_of_int: "round_half_even (of_int k) = k"
  by (simp add: round_half_even_def)

lemma round_half_even_minus: "round_half_even (- x) = - round_half_even x"
proof (cases "x = of_int \<lfloor>x\<rfloor>")
  case True
  then obtain k :: int where x: "x = of_int k" ..
  have "round_half_even (- of_int k) = round_half_even (of_int (- k))" by simp
  then show ?thesis unfolding x by (simp only: round_half_even_of_int)
next
  case False
  define n where "n = \<lfloor>x\<rfloor>"
  have lt: "of_int n < x" "x < of_int n + 1"
    using False unfolding n_def by linarith+
  have fl: "\<lfloor>- x\<rfloor> = - n - 1"
    using lt by (intro floor_unique) auto
  show ?thesis
    unfolding round_half_even_def Let_def fl n_def [symmetric]
    using lt by (auto simp: field_simps)
qed

lemma exponent_mono:
  assumes "0 < x" and "x \<le> y"
  shows "exponent x \<le> exponent y"
proof (rule ccontr)
  assume "\<not> exponent x \<le> exponent y"
  then have "exponent y + 1 \<le> exponent x" by simp
  then have "(2::real) powi (exponent y + 1) \<le> 2 powi exponent x"
    by (intro power_int_increasing) auto
  moreover have "2 powi exponent x \<le> x"
    using exponent_bounds [OF assms(1)] by simp
  moreover have "y < 2 powi (exponent y + 1)"
    using exponent_bounds [of y] assms by simp
  ultimately show False using assms(2) by linarith
qed

lemma binary64_pos:
  assumes "0 < x"
  shows "binary64 x = of_int (round_half_even (x / 2 powi (max (exponent x) (- 1022) - 52)))
           * 2 powi (max (exponent x) (- 1022) - 52)"
  using assms by (simp add: binary64_def Let_def)

lemma binary64_pos_upper:
  assumes "0 < x"
  shows "binary64 x \<le> 2 powi (max (exponent x) (- 1022) + 1)"
proof -
  define E where "E = max (exponent x) (- 1022)"
  define q :: real where "q = 2 powi (E - 52)"
  have q: "0 < q" by (simp add: q_def)
  have "x < 2 powi (exponent x + 1)"
    using exponent_bounds [OF assms] by simp
  also have "\<dots> \<le> 2 powi (E + 1)"
    unfolding E_def by (intro power_int_increasing) auto
  also have "\<dots> = 2 ^ 53 * q"
    unfolding q_def by (simp add: power_int_add power_int_diff)
  finally have "x / q \<le> 2 ^ 53"
    using q by (simp add: field_simps)
  then have "x / q \<le> of_int (2 ^ 53)" by simp
  then have "round_half_even (x / q) \<le> round_half_even (of_int (2 ^ 53))"
    by (rule round_half_even_mono)
  then have "round_half_even (x / q) \<le> 2 ^ 53"
    by (simp only: round_half_even_of_int)
  then have "(of_int (round_half_even (x / q)) :: real) \<le> 2 ^ 53"
    by (metis of_int_le_iff of_int_numeral of_int_power)
  then have "of_int (round_half_even (x / q)) * q \<le> 2 ^ 53 * q"
    using q by (intro mult_right_mono) auto
  also have "2 ^ 53 * q = 2 powi (E + 1)"
    unfolding q_def by (simp add: power_int_add power_int_diff)
  finally show ?thesis
    unfolding binary64_pos [OF assms] E_def q_def .
qed

lemma binary64_pos_lower:
  assumes "0 < x" and "- 1022 \<le> exponent x"
  shows "2 powi exponent x \<le> binary64 x"
proof -
  define q :: real where "q = 2 powi (exponent x - 52)"
  have q: "0 < q" by (simp add: q_def)
  have E: "max (exponent x) (- 1022) = exponent x"
    using assms(2) by simp
  have eq: "2 powi exponent x = 2 ^ 52 * q"
    unfolding q_def by (simp add: power_int_diff)
  have "2 powi exponent x \<le> x"
    using exponent_bounds [OF assms(1)] by simp
  then have "of_int (2 ^ 52) \<le> x / q"
    unfolding eq using q by (simp add: field_simps)
  then have "round_half_even (of_int (2 ^ 52)) \<le> round_half_even (x / q)"
    by (rule round_half_even_mono)
  then have "2 ^ 52 \<le> round_half_even (x / q)"
    by (simp only: round_half_even_of_int)
  then have "(2::real) ^ 52 \<le> of_int (round_half_even (x / q))"
    by (metis of_int_le_iff of_int_numeral of_int_power)
  then have "2 ^ 52 * q \<le> of_int (round_half_even (x / q)) * q"
    using q by (intro mult_right_mono) auto
  then show ?thesis
    unfolding binary64_pos [OF assms(1)] E eq q_def .
qed

lemma binary64_mono_pos:
  assumes "0 < x" and "x \<le> y"
  shows "binary64 x \<le> binary64 y"
proof -
  have y: "0 < y" using assms by simp
  define Ex where "Ex = max (exponent x) (- 1022)"
  define Ey where "Ey = max (exponent y) (- 1022)"
  have le: "Ex \<le> Ey"
    unfolding Ex_def Ey_def using exponent_mono [OF assms] by simp
  show ?thesis
  proof (cases "Ex = Ey")
    case True
    define q :: real where "q = 2 powi (Ex - 52)"
    have q: "0 < q" by (simp add: q_def)
    have "x / q \<le> y / q"
      using assms(2) q by (simp add: divide_right_mono)
    then have "round_half_even (x / q) \<le> round_half_even (y / q)"
      by (rule round_half_even_mono)
    then have "(of_int (round_half_even (x / q)) :: real) \<le> of_int (round_half_even (y / q))"
      by simp
    then have "of_int (round_half_even (x / q)) * q \<le> of_int (round_half_even (y / q)) * q"
      using q by (intro mult_right_mono) auto
    then show ?thesis
      unfolding binary64_pos [OF assms(1)] binary64_pos [OF y] Ex_def [symmetric] Ey_def [symmetric]
        True [symmetric] q_def .
  next
    case False
    with le have lt: "Ex + 1 \<le> Ey" by simp
    have "- 1022 \<le> Ex" by (simp add: Ex_def)
    with lt have "- 1022 < Ey" by simp
    then have ey: "Ey = exponent y" "- 1022 \<le> exponent y"
      unfolding Ey_def by auto
    have "binary64 x \<le> 2 powi (Ex + 1)"
      unfolding Ex_def by (rule binary64_pos_upper [OF assms(1)])
    also have "\<dots> \<le> 2 powi Ey"
      using lt by (intro power_int_increasing) auto
    also have "\<dots> \<le> binary64 y"
      unfolding ey(1) by (rule binary64_pos_lower [OF y ey(2)])
    finally show ?thesis .
  qed
qed

lemma binary64_nonneg: "0 \<le> x \<Longrightarrow> 0 \<le> binary64 x"
proof -
  assume x: "0 \<le> x"
  define q :: real where "q = 2 powi (max (exponent \<bar>x\<bar>) (- 1022) - 52)"
  have q: "0 < q" by (simp add: q_def)
  have "of_int 0 \<le> x / q" using x q by simp
  then have "round_half_even (of_int 0) \<le> round_half_even (x / q)"
    by (rule round_half_even_mono)
  then have "0 \<le> round_half_even (x / q)"
    by (simp only: round_half_even_of_int)
  then have "0 \<le> of_int (round_half_even (x / q)) * q"
    using q by simp
  then show ?thesis
    by (simp add: binary64_def Let_def q_def)
qed

lemma binary64_minus: "binary64 (- x) = - binary64 x"
  by (simp add: binary64_def Let_def round_half_even_minus)

lemma binary64_mono:
  assumes "x \<le> y"
  shows "binary64 x \<le> binary64 y"
proof -
  consider "0 < x" | "x \<le> 0" "0 \<le> y" | "y < 0" by linarith
  then show ?thesis
  proof cases
    case 1
    then show ?thesis using assms by (rule binary64_mono_pos)
  next
    case 2
    have "0 \<le> binary64 (- x)" using 2(1) by (intro binary64_nonneg) simp
    then have "binary64 x \<le> 0" by (simp add: binary64_minus)
    also have "0 \<le> binary64 y" using 2(2) by (rule binary64_nonneg)
    finally show ?thesis .
  next
    case 3
    then have "0 < - y" "- y \<le> - x" using assms by simp_all
    then have "binary64 (- y) \<le> binary64 (- x)" by (rule binary64_mono_pos)
    then show ?thesis by (simp add: binary64_minus)
  qed
qed

lemma round2_mono: "x \<le> y \<Longrightarrow> round2 x \<le> round2 y"
proof -
  assume "x \<le> y"
  then have "x * 100 \<le> y * 100" by simp
  then have "js_mul x 100 \<le> js_mul y 100"
    unfolding js_mul_def by (rule binary64_mono)
  then have "\<lfloor>js_mul x 100 + 1 / 2\<rfloor> \<le> \<lfloor>js_mul y 100 + 1 / 2\<rfloor>"
    by (intro floor_mono) simp
  then have "Math_round (js_mul x 100) \<le> Math_round (js_mul y 100)"
    unfolding Math_round_def by simp
  then have "Math_round (js_mul x 100) / 100 \<le> Math_round (js_mul y 100) / 100"
    by simp
  then show ?thesis
    unfolding round2_def js_div_def by (rule binary64_mono)
qed

text \<open>
  The rounding reproduces the sums and quotients of JavaScript, which are not the exact
  ones: \<open>0.1 + 0.2\<close> is \<open>0.30000000000000004\<close>, \<open>0.15 + 0.08\<close> is
  \<open>0.22999999999999998\<close>, and \<open>Math.round(0.145 * 100) / 100\<close> is \<open>0.14\<close>.
\<close>

lemma binary64_examples:
  "js_add (binary64 0.1) (binary64 0.2) = binary64 0.30000000000000004 \<and>
   js_add (binary64 0.15) (binary64 0.08) = binary64 0.22999999999999998 \<and>
   js_add (binary64 0.15) (binary64 0.08) \<noteq> binary64 0.23 \<and>
   js_add (js_add (binary64 0.15) (binary64 0.15)) (binary64 0.15) = binary64 0.44999999999999996 \<and>
   round2 (binary64 0.145) = binary64 0.14 \<and>
   round2 (binary64 0.121) = binary64 0.12"
  by code_simp

section \<open>Properties of the weight updater\<close>

lemma upsert_weight_in_range:
  "weights_in_range tbl \<Longrightarrow> - 1 \<le> delta \<Longrightarrow> delta \<le> 1 \<Longrightarrow> weights_in_range (upsert_weight tbl k delta)"
  by (auto simp: weights_in_range_def upsert_weight_def split: option.splits)

lemma upsert_excluded_in_range:
  "weights_in_range tbl \<Longrightarrow> weights_in_range (upsert_excluded tbl k)"
  by (fastforce simp: weights_in_range_def upsert_excluded_def split: option.splits if_splits)

lemma update_array_feature_in_range:
  "weights_in_range tbl \<Longrightarrow> - 1 \<le> delta \<Longrightarrow> delta \<le> 1 \<Longrightarrow>
   update_array_feature tbl pid fk delta vs = Inr tbl' \<Longrightarrow> weights_in_range tbl'"
proof (induction vs arbitrary: tbl)
  case Nil
  then show ?case by simp
next
  case (Cons v vs)
  from Cons.prems(4) obtain ft where ft: "cast_feature_type fk = Some ft"
    and run: "update_array_feature (upsert_weight tbl (pid, ft, v) delta) pid fk delta vs = Inr tbl'"
    by (auto split: option.splits)
  have "weights_in_range (upsert_weight tbl (pid, ft, v) delta)"
    using Cons.prems(1-3) by (rule upsert_weight_in_range)
  then show ?case
    using Cons.IH Cons.prems(2,3) run by blast
qed

lemma update_feature_in_range:
  "weights_in_range tbl \<Longrightarrow> - 1 \<le> delta \<Longrightarrow> delta \<le> 1 \<Longrightarrow>
   update_feature tbl pid delta kv = Inr tbl' \<Longrightarrow> weights_in_range tbl'"
  by (auto simp: update_feature_def upsert_weight_in_range split: jsonb.splits option.splits
      dest: update_array_feature_in_range)

lemma update_features_in_range:
  "weights_in_range tbl \<Longrightarrow> - 1 \<le> delta \<Longrightarrow> delta \<le> 1 \<Longrightarrow>
   update_features tbl pid delta fs = Inr tbl' \<Longrightarrow> weights_in_range tbl'"
proof (induction fs arbitrary: tbl)
  case Nil
  then show ?case by simp
next
  case (Cons kv fs)
  then show ?case
    by (auto split: sum.splits dest: update_feature_in_range)
qed

lemma update_excluded_in_range:
  "weights_in_range tbl \<Longrightarrow> weights_in_range (update_excluded tbl pid xs)"
  by (induction xs arbitrary: tbl) (auto simp: upsert_excluded_in_range)

lemma weight_delta_bounds: "- 1 \<le> weight_delta r \<and> weight_delta r \<le> 1"
  by (cases r) auto

lemma update_preference_weights_in_range:
  "weights_in_range tbl \<Longrightarrow> update_preference_weights recipes tbl NEW = Inr tbl' \<Longrightarrow> weights_in_range tbl'"
  using weight_delta_bounds [of "rating NEW"]
  by (auto simp: update_preference_weights_def Let_def update_excluded_in_range
      split: sum.splits option.splits if_splits dest: update_features_in_range)

lemma apply_ratings_in_range:
  "weights_in_range tbl \<Longrightarrow> weights_in_range (apply_ratings recipes tbl evs)"
proof (induction evs arbitrary: tbl)
  case Nil
  then show ?case by simp
next
  case (Cons NEW evs)
  show ?case
  proof (cases "update_preference_weights recipes tbl NEW")
    case (Inl e)
    with Cons show ?thesis by simp
  next
    case (Inr tbl')
    with Cons update_preference_weights_in_range [OF Cons.prems Inr] show ?thesis by simp
  qed
qed

lemma upsert_weight_other: "k' \<noteq> k \<Longrightarrow> upsert_weight tbl k' delta k = tbl k"
  by (simp add: upsert_weight_def split: option.splits)

lemma upsert_excluded_other: "k' \<noteq> k \<Longrightarrow> upsert_excluded tbl k' k = tbl k"
  by (simp add: upsert_excluded_def split: option.splits)

lemma upsert_weight_same_cong:
  "t1 k = t2 k \<Longrightarrow> upsert_weight t1 k delta k = upsert_weight t2 k delta k"
  by (simp add: upsert_weight_def split: option.splits)

lemma upsert_excluded_same_cong:
  "t1 k = t2 k \<Longrightarrow> upsert_excluded t1 k k = upsert_excluded t2 k k"
  by (simp add: upsert_excluded_def split: option.splits)

lemma upsert_weight_funpow_cong:
  "t1 k = t2 k \<Longrightarrow>
   ((\<lambda>t. upsert_weight t k delta) ^^ m) t1 k = ((\<lambda>t. upsert_weight t k delta) ^^ m) t2 k"
  by (induction m) (auto intro: upsert_weight_same_cong)

lemma upsert_excluded_funpow_cong:
  "t1 k = t2 k \<Longrightarrow>
   ((\<lambda>t. upsert_excluded t k) ^^ m) t1 k = ((\<lambda>t. upsert_excluded t k) ^^ m) t2 k"
  by (induction m) (auto intro: upsert_excluded_same_cong)

lemma cast_feature_type_label: "cast_feature_type s = Some ft \<Longrightarrow> s = feature_type_label ft"
  by (auto simp: cast_feature_type_def split: if_splits)

lemma feature_type_label_inject: "feature_type_label a = feature_type_label b \<Longrightarrow> a = b"
  by (cases a; cases b) simp_all

lemma update_array_feature_at:
  "update_array_feature tbl pid fk delta vs = Inr tbl' \<Longrightarrow>
   tbl' (pid, ft, v) =
     ((\<lambda>t. upsert_weight t (pid, ft, v) delta) ^^ count_list (map (Pair fk) vs) (feature_type_label ft, v))
        tbl (pid, ft, v)"
proof (induction vs arbitrary: tbl)
  case Nil
  then show ?case by simp
next
  case (Cons x vs)
  let ?U = "\<lambda>t. upsert_weight t (pid, ft, v) delta"
  let ?c = "count_list (map (Pair fk) vs) (feature_type_label ft, v)"
  from Cons.prems obtain ft' where ft': "cast_feature_type fk = Some ft'"
    and run: "update_array_feature (upsert_weight tbl (pid, ft', x) delta) pid fk delta vs = Inr tbl'"
    by (auto split: option.splits)
  have fk: "fk = feature_type_label ft'"
    using ft' by (rule cast_feature_type_label)
  have ih: "tbl' (pid, ft, v) = (?U ^^ ?c) (upsert_weight tbl (pid, ft', x) delta) (pid, ft, v)"
    using Cons.IH [OF run] .
  show ?case
  proof (cases "ft' = ft \<and> x = v")
    case True
    have "(?U ^^ Suc ?c) tbl = (?U ^^ ?c) (?U tbl)"
      by (simp only: funpow_Suc_right o_apply)
    moreover have "count_list (map (Pair fk) (x # vs)) (feature_type_label ft, v) = Suc ?c"
      using True fk by simp
    ultimately show ?thesis
      using ih True by (simp del: funpow.simps)
  next
    case False
    then have ne: "(pid, ft', x) \<noteq> (pid, ft, v)" by auto
    have "(fk, x) \<noteq> (feature_type_label ft, v)"
      using False fk feature_type_label_inject by auto
    then have "count_list (map (Pair fk) (x # vs)) (feature_type_label ft, v) = ?c"
      by simp
    moreover have "(?U ^^ ?c) (upsert_weight tbl (pid, ft', x) delta) (pid, ft, v) = (?U ^^ ?c) tbl (pid, ft, v)"
      by (rule upsert_weight_funpow_cong) (simp add: upsert_weight_other [OF ne])
    ultimately show ?thesis
      using ih by (simp del: funpow.simps count_list.simps)
  qed
qed

lemma update_feature_at:
  "update_feature tbl pid delta kv = Inr tbl' \<Longrightarrow>
   tbl' (pid, ft, v) =
     ((\<lambda>t. upsert_weight t (pid, ft, v) delta) ^^ count_list (feature_pairs [kv]) (feature_type_label ft, v))
        tbl (pid, ft, v)"
proof (cases kv)
  case (Pair fk fv)
  assume run: "update_feature tbl pid delta kv = Inr tbl'"
  show ?thesis
  proof (cases "\<exists>vs. fv = JArray vs")
    case True
    then obtain vs where vs: "fv = JArray vs" by blast
    with run Pair have "update_array_feature tbl pid fk delta vs = Inr tbl'"
      by (simp add: update_feature_def)
    from update_array_feature_at [OF this] show ?thesis
      using Pair vs by simp
  next
    case False
    then have pairs: "feature_pairs [kv] = [(fk, jsonb_text fv)]"
      using Pair by (cases fv) simp_all
    from run Pair False obtain ft' where ft': "cast_feature_type fk = Some ft'"
      and tbl': "tbl' = upsert_weight tbl (pid, ft', jsonb_text fv) delta"
      by (cases fv) (auto simp: update_feature_def split: option.splits)
    have fk: "fk = feature_type_label ft'"
      using ft' by (rule cast_feature_type_label)
    show ?thesis
    proof (cases "ft' = ft \<and> jsonb_text fv = v")
      case True
      then show ?thesis using pairs tbl' fk by simp
    next
      case False
      then have ne: "(pid, ft', jsonb_text fv) \<noteq> (pid, ft, v)" by auto
      have "(fk, jsonb_text fv) \<noteq> (feature_type_label ft, v)"
        using False fk feature_type_label_inject by auto
      then have "count_list (feature_pairs [kv]) (feature_type_label ft, v) = 0"
        using pairs by simp
      moreover have "tbl' (pid, ft, v) = tbl (pid, ft, v)"
        using tbl' upsert_weight_other [OF ne] by simp
      ultimately show ?thesis
        by simp
    qed
  qed
qed

lemma feature_pairs_Cons: "feature_pairs (kv # fs) = feature_pairs [kv] @ feature_pairs fs"
  by (cases kv; cases "snd kv") auto

lemma count_list_append: "count_list (xs @ ys) x = count_list xs x + count_list ys x"
  by (induction xs) auto

lemma update_features_at:
  "update_features tbl pid delta fs = Inr tbl' \<Longrightarrow>
   tbl' (pid, ft, v) =
     ((\<lambda>t. upsert_weight t (pid, ft, v) delta) ^^ count_list (feature_pairs fs) (feature_type_label ft, v))
        tbl (pid, ft, v)"
proof (induction fs arbitrary: tbl)
  case Nil
  then show ?case by simp
next
  case (Cons kv fs)
  let ?U = "\<lambda>t. upsert_weight t (pid, ft, v) delta"
  from Cons.prems obtain tbl1 where one: "update_feature tbl pid delta kv = Inr tbl1"
    and run: "update_features tbl1 pid delta fs = Inr tbl'"
    by (auto split: sum.splits)
  let ?a = "count_list (feature_pairs [kv]) (feature_type_label ft, v)"
  let ?b = "count_list (feature_pairs fs) (feature_type_label ft, v)"
  have "tbl' (pid, ft, v) = (?U ^^ ?b) tbl1 (pid, ft, v)"
    using Cons.IH [OF run] .
  also have "\<dots> = (?U ^^ ?b) ((?U ^^ ?a) tbl) (pid, ft, v)"
    by (rule upsert_weight_funpow_cong) (rule update_feature_at [OF one])
  also have "\<dots> = (?U ^^ (?a + ?b)) tbl (pid, ft, v)"
    by (simp add: funpow_add add.commute)
  finally show ?case
    by (subst feature_pairs_Cons) (simp add: count_list_append)
qed

lemma update_excluded_at:
  "update_excluded tbl pid xs (pid, Ingredient, name) =
     ((\<lambda>t. upsert_excluded t (pid, Ingredient, name)) ^^ count_list xs name) tbl (pid, Ingredient, name)"
proof (induction xs arbitrary: tbl)
  case Nil
  then show ?case by simp
next
  case (Cons x xs)
  let ?E = "\<lambda>t. upsert_excluded t (pid, Ingredient, name)"
  show ?case
  proof (cases "x = name")
    case True
    have "(?E ^^ Suc (count_list xs name)) tbl = (?E ^^ count_list xs name) (?E tbl)"
      by (simp only: funpow_Suc_right o_apply)
    then show ?thesis using True Cons.IH by (simp del: funpow.simps)
  next
    case False
    then have ne: "(pid, Ingredient, x) \<noteq> (pid, Ingredient, name)" by simp
    have "(?E ^^ count_list xs name) (upsert_excluded tbl (pid, Ingredient, x)) (pid, Ingredient, name)
        = (?E ^^ count_list xs name) tbl (pid, Ingredient, name)"
      by (rule upsert_excluded_funpow_cong) (simp add: upsert_excluded_other [OF ne])
    then show ?thesis using False Cons.IH by simp
  qed
qed

lemma update_excluded_other:
  "k \<notin> (\<lambda>x. (pid, Ingredient, x)) ` set xs \<Longrightarrow> update_excluded tbl pid xs k = tbl k"
  by (induction xs arbitrary: tbl) (auto simp: upsert_excluded_other)

lemma upsert_weight_keeps_lower:
  "weight_of tbl k = Some (- 1) \<Longrightarrow> delta \<le> 0 \<Longrightarrow> weight_of (upsert_weight tbl k' delta) k = Some (- 1)"
  by (auto simp: weight_of_def upsert_weight_def split: option.splits)

lemma upsert_weight_keeps_upper:
  "weight_of tbl k = Some 1 \<Longrightarrow> 0 \<le> delta \<Longrightarrow> weight_of (upsert_weight tbl k' delta) k = Some 1"
  by (auto simp: weight_of_def upsert_weight_def split: option.splits)

lemma upsert_excluded_keeps_lower:
  "weight_of tbl k = Some (- 1) \<Longrightarrow> weight_of (upsert_excluded tbl k') k = Some (- 1)"
  by (auto simp: weight_of_def upsert_excluded_def split: option.splits)

lemma update_array_feature_keeps:
  assumes step: "\<And>t k'. weight_of t k = Some b \<Longrightarrow> weight_of (upsert_weight t k' delta) k = Some b"
  shows "weight_of tbl k = Some b \<Longrightarrow> update_array_feature tbl pid fk delta vs = Inr tbl' \<Longrightarrow>
         weight_of tbl' k = Some b"
proof (induction vs arbitrary: tbl)
  case Nil
  then show ?case by simp
next
  case (Cons v vs)
  from Cons.prems(2) obtain ft where
    run: "update_array_feature (upsert_weight tbl (pid, ft, v) delta) pid fk delta vs = Inr tbl'"
    by (auto split: option.splits)
  show ?case
    using Cons.IH [OF step [OF Cons.prems(1)] run] .
qed

lemma update_feature_keeps:
  assumes step: "\<And>t k'. weight_of t k = Some b \<Longrightarrow> weight_of (upsert_weight t k' delta) k = Some b"
  shows "weight_of tbl k = Some b \<Longrightarrow> update_feature tbl pid delta kv = Inr tbl' \<Longrightarrow>
         weight_of tbl' k = Some b"
  using update_array_feature_keeps [of k b delta, OF step]
  by (auto simp: update_feature_def step split: jsonb.splits option.splits)

lemma update_features_keeps:
  assumes step: "\<And>t k'. weight_of t k = Some b \<Longrightarrow> weight_of (upsert_weight t k' delta) k = Some b"
  shows "weight_of tbl k = Some b \<Longrightarrow> update_features tbl pid delta fs = Inr tbl' \<Longrightarrow>
         weight_of tbl' k = Some b"
proof (induction fs arbitrary: tbl)
  case Nil
  then show ?case by simp
next
  case (Cons kv fs)
  from Cons.prems(2) obtain tbl1 where one: "update_feature tbl pid delta kv = Inr tbl1"
    and run: "update_features tbl1 pid delta fs = Inr tbl'"
    by (auto split: sum.splits)
  have "weight_of tbl1 k = Some b"
    using update_feature_keeps [of k b delta, OF step Cons.prems(1) one] .
  then show ?case
    using Cons.IH run by blast
qed

lemma update_excluded_keeps_lower:
  "weight_of tbl k = Some (- 1) \<Longrightarrow> weight_of (update_excluded tbl pid xs) k = Some (- 1)"
  by (induction xs arbitrary: tbl) (auto simp: upsert_excluded_keeps_lower)

lemma event_keeps_lower:
  assumes "update_preference_weights recipes tbl NEW = Inr tbl'"
    and "weight_of tbl k = Some (- 1)" and "weight_delta (rating NEW) \<le> 0"
  shows "weight_of tbl' k = Some (- 1)"
proof -
  let ?d = "weight_delta (rating NEW)"
  from assms(1) obtain tbl1 where
    feats: "update_features tbl (rating_profile_id NEW) ?d (recipe_features recipes (rating_recipe_id NEW)) = Inr tbl1"
    and rest: "tbl' = tbl1 \<or> (\<exists>xs. tbl' = update_excluded tbl1 (rating_profile_id NEW) xs)"
    by (auto simp: update_preference_weights_def Let_def split: sum.splits option.splits if_splits)
  have "weight_of tbl1 k = Some (- 1)"
    by (rule update_features_keeps [OF _ assms(2) feats]) (rule upsert_weight_keeps_lower [OF _ assms(3)])
  then show ?thesis
    using rest by (auto intro: update_excluded_keeps_lower)
qed

lemma event_keeps_upper:
  assumes "update_preference_weights recipes tbl NEW = Inr tbl'"
    and "weight_of tbl k = Some 1" and "0 \<le> weight_delta (rating NEW)"
    and "k \<notin> (\<lambda>x. (rating_profile_id NEW, Ingredient, x)) `
              set (case excluded_ingredients NEW of None \<Rightarrow> [] | Some xs \<Rightarrow> xs)"
  shows "weight_of tbl' k = Some 1"
proof -
  let ?d = "weight_delta (rating NEW)"
  from assms(1) obtain tbl1 where
    feats: "update_features tbl (rating_profile_id NEW) ?d (recipe_features recipes (rating_recipe_id NEW)) = Inr tbl1"
    and rest: "tbl' = tbl1 \<or> (\<exists>xs. excluded_ingredients NEW = Some xs \<and> tbl' = update_excluded tbl1 (rating_profile_id NEW) xs)"
    by (auto simp: update_preference_weights_def Let_def split: sum.splits option.splits if_splits)
  have one: "weight_of tbl1 k = Some 1"
    by (rule update_features_keeps [OF _ assms(2) feats]) (rule upsert_weight_keeps_upper [OF _ assms(3)])
  from rest show ?thesis
  proof
    assume "tbl' = tbl1"
    with one show ?thesis by simp
  next
    assume "\<exists>xs. excluded_ingredients NEW = Some xs \<and> tbl' = update_excluded tbl1 (rating_profile_id NEW) xs"
    then obtain xs where xs: "excluded_ingredients NEW = Some xs"
      and tbl': "tbl' = update_excluded tbl1 (rating_profile_id NEW) xs" by blast
    have "k \<notin> (\<lambda>x. (rating_profile_id NEW, Ingredient, x)) ` set xs"
      using assms(4) xs by simp
    then have "tbl' k = tbl1 k"
      unfolding tbl' by (rule update_excluded_other)
    with one show ?thesis by (simp add: weight_of_def)
  qed
qed

lemmas example_simps = example_recipes_def hated_r1_def loved_r1_without_lax_def
  liked_r2_without_lax_def liked_r4_without_lax_def lax_half_def
  indian_at_floor_def indian_at_ceiling_def weight_of_def rated_weight_def update_preference_weights_def recipe_features_def
  update_feature_def cast_feature_type_def upsert_weight_def upsert_excluded_def
  json_string_text_def escape_json_char_def

subsection \<open>Weights stay within the bounds\<close>

text \<open>
  Claim C3. Starting from a table whose weights lie in \<open>[-1, 1]\<close> (the empty table, or any
  table the updater has produced), the weights lie in \<open>[-1, 1]\<close> after every rating of any
  sequence, whatever the ratings and excluded ingredients; an insert whose trigger raises
  changes nothing. The clamp saturates: a weight at \<open>-1\<close> stays at \<open>-1\<close> through a rating
  whose delta is not positive, and a weight at \<open>1\<close> stays at \<open>1\<close> through a rating whose
  delta is not negative and which does not exclude that key's ingredient.
\<close>

theorem weights_stay_clamped:
  assumes "weights_in_range tbl"
  shows "weights_in_range (apply_ratings recipes tbl (take i evs)) \<and>
    (\<forall>NEW tbl' k.
       update_preference_weights recipes tbl NEW = Inr tbl' \<and> weight_of tbl k = Some (- 1) \<and>
       weight_delta (rating NEW) \<le> 0 \<longrightarrow> weight_of tbl' k = Some (- 1)) \<and>
    (\<forall>NEW tbl' k.
       update_preference_weights recipes tbl NEW = Inr tbl' \<and> weight_of tbl k = Some 1 \<and>
       0 \<le> weight_delta (rating NEW) \<and>
       k \<notin> (\<lambda>x. (rating_profile_id NEW, Ingredient, x)) `
              set (case excluded_ingredients NEW of None \<Rightarrow> [] | Some xs \<Rightarrow> xs)
       \<longrightarrow> weight_of tbl' k = Some 1)"
proof (intro conjI allI impI)
  show "weights_in_range (apply_ratings recipes tbl (take i evs))"
    using assms by (rule apply_ratings_in_range)
next
  fix NEW tbl' k
  assume "update_preference_weights recipes tbl NEW = Inr tbl' \<and> weight_of tbl k = Some (- 1) \<and>
       weight_delta (rating NEW) \<le> 0"
  then show "weight_of tbl' k = Some (- 1)"
    using event_keeps_lower by blast
next
  fix NEW tbl' k
  assume "update_preference_weights recipes tbl NEW = Inr tbl' \<and> weight_of tbl k = Some 1 \<and>
       0 \<le> weight_delta (rating NEW) \<and>
       k \<notin> (\<lambda>x. (rating_profile_id NEW, Ingredient, x)) `
              set (case excluded_ingredients NEW of None \<Rightarrow> [] | Some xs \<Rightarrow> xs)"
  then show "weight_of tbl' k = Some 1"
    using event_keeps_upper by blast
qed

theorem weights_stay_clamped_witness:
  "weights_in_range (\<lambda>k. None) \<and>
   weights_in_range (apply_ratings example_recipes (\<lambda>k. None) (take 7 (replicate 9 hated_r1))) \<and>
   weight_of (apply_ratings example_recipes (\<lambda>k. None) (replicate 7 hated_r1))
     (''p1'', Cuisine, json_string_text ''indian'') = Some (- 1) \<and>
   weight_of indian_at_floor (''p1'', Cuisine, json_string_text ''indian'') = Some (- 1) \<and>
   rated_weight example_recipes indian_at_floor hated_r1
     (''p1'', Cuisine, json_string_text ''indian'') = Inr (Some (- 1)) \<and>
   weight_of indian_at_ceiling (''p1'', Cuisine, json_string_text ''indian'') = Some 1 \<and>
   rated_weight example_recipes indian_at_ceiling loved_r1_without_lax
     (''p1'', Cuisine, json_string_text ''indian'') = Inr (Some 1)"
proof -
  let ?k = "(''p1'', Cuisine, json_string_text ''indian'')"
  have empty: "weights_in_range (\<lambda>k. None)"
    by (simp add: weights_in_range_def)
  have seven: "weights_in_range (apply_ratings example_recipes (\<lambda>k. None) (take 7 (replicate 9 hated_r1)))"
    using weights_stay_clamped [OF empty, of example_recipes 7 "replicate 9 hated_r1"]
    by (rule conjunct1)
  have drift: "weight_of (apply_ratings example_recipes (\<lambda>k. None) (replicate 7 hated_r1)) ?k = Some (- 1)"
    by (simp add: example_simps eval_nat_numeral)
  have lo_range: "weights_in_range indian_at_floor"
    by (simp add: weights_in_range_def indian_at_floor_def)
  have lo: "weight_of indian_at_floor ?k = Some (- 1)"
    by (simp add: indian_at_floor_def weight_of_def)
  obtain lo' where lo_run: "update_preference_weights example_recipes indian_at_floor hated_r1 = Inr lo'"
    by (simp add: example_simps)
  have lo_delta: "weight_delta (rating hated_r1) \<le> 0"
    by (simp add: hated_r1_def)
  have "weight_of lo' ?k = Some (- 1)"
    using weights_stay_clamped [OF lo_range, of example_recipes 0 "[]",
        THEN conjunct2, THEN conjunct1, rule_format, of hated_r1 lo' ?k]
      lo_run lo lo_delta by blast
  then have lo_after: "rated_weight example_recipes indian_at_floor hated_r1 ?k = Inr (Some (- 1))"
    using lo_run by (simp add: rated_weight_def)
  have hi_range: "weights_in_range indian_at_ceiling"
    by (simp add: weights_in_range_def indian_at_ceiling_def)
  have hi: "weight_of indian_at_ceiling ?k = Some 1"
    by (simp add: indian_at_ceiling_def weight_of_def)
  obtain hi' where hi_run:
    "update_preference_weights example_recipes indian_at_ceiling loved_r1_without_lax = Inr hi'"
    by (simp add: example_simps)
  have hi_delta: "0 \<le> weight_delta (rating loved_r1_without_lax)"
    by (simp add: loved_r1_without_lax_def)
  have hi_key: "?k \<notin> (\<lambda>x. (rating_profile_id loved_r1_without_lax, Ingredient, x)) `
      set (case excluded_ingredients loved_r1_without_lax of None \<Rightarrow> [] | Some xs \<Rightarrow> xs)"
    by (simp add: loved_r1_without_lax_def)
  have "weight_of hi' ?k = Some 1"
    using weights_stay_clamped [OF hi_range, of example_recipes 0 "[]",
        THEN conjunct2, THEN conjunct2, rule_format, of loved_r1_without_lax hi' ?k]
      hi_run hi hi_delta hi_key by blast
  then have hi_after:
    "rated_weight example_recipes indian_at_ceiling loved_r1_without_lax ?k = Inr (Some 1)"
    using hi_run by (simp add: rated_weight_def)
  show ?thesis
    using empty seven drift lo lo_after hi hi_after by blast
qed

subsection \<open>The penalty of an excluded ingredient\<close>

text \<open>
  Where the trigger completes, the penalty is applied after, and on top of, the feature
  loop: a listed name whose key is not among the pairs the feature loop has upserted gets
  one penalty upsert, and the pairs of the feature loop get the rating's delta.
\<close>

lemma excluded_penalty_after_features:
  fixes recipes tbl NEW
  defines "pid \<equiv> rating_profile_id NEW"
    and "delta \<equiv> weight_delta (rating NEW)"
    and "fs \<equiv> recipe_features recipes (rating_recipe_id NEW)"
  assumes run: "update_preference_weights recipes tbl NEW = Inr tbl'"
    and ex: "excluded_ingredients NEW = Some xs"
    and name: "name \<in> set xs" and once: "count_list xs name = 1"
    and notfeat: "(''ingredient'', name) \<notin> set (feature_pairs fs)"
  shows "(\<exists>tbl1. update_features tbl pid delta fs = Inr tbl1 \<and> tbl' = update_excluded tbl1 pid xs) \<and>
    tbl' (pid, Ingredient, name) = upsert_excluded tbl (pid, Ingredient, name) (pid, Ingredient, name) \<and>
    (\<forall>fk v ft. count_list (feature_pairs fs) (fk, v) = 1 \<and> cast_feature_type fk = Some ft \<and>
         \<not> (ft = Ingredient \<and> v \<in> set xs) \<longrightarrow>
         tbl' (pid, ft, v) = upsert_weight tbl (pid, ft, v) delta (pid, ft, v))"
proof -
  let ?k = "(pid, Ingredient, name)"
  from name have "length xs > 0" by (cases xs) auto
  with run ex obtain tbl1 where feats: "update_features tbl pid delta fs = Inr tbl1"
    and tbl': "tbl' = update_excluded tbl1 pid xs"
    by (auto simp: update_preference_weights_def Let_def pid_def delta_def fs_def split: sum.splits)
  have c0: "count_list (feature_pairs fs) (feature_type_label Ingredient, name) = 0"
    using notfeat by (simp add: count_list_0_iff)
  have same: "tbl1 ?k = tbl ?k"
    using update_features_at [OF feats, of Ingredient name] c0 by simp
  have "tbl' ?k = upsert_excluded tbl1 ?k ?k"
    unfolding tbl' using update_excluded_at [of tbl1 pid xs name] once by simp
  also have "\<dots> = upsert_excluded tbl ?k ?k"
    using same by (rule upsert_excluded_same_cong)
  finally have at_k: "tbl' ?k = upsert_excluded tbl ?k ?k" .
  have others: "tbl' (pid, ft, v) = upsert_weight tbl (pid, ft, v) delta (pid, ft, v)"
    if cnt: "count_list (feature_pairs fs) (fk, v) = 1" and cast: "cast_feature_type fk = Some ft"
      and other: "\<not> (ft = Ingredient \<and> v \<in> set xs)" for fk v ft
  proof -
    have "(pid, ft, v) \<notin> (\<lambda>x. (pid, Ingredient, x)) ` set xs"
      using other by auto
    then have "tbl' (pid, ft, v) = tbl1 (pid, ft, v)"
      unfolding tbl' by (rule update_excluded_other)
    moreover have "fk = feature_type_label ft"
      using cast by (rule cast_feature_type_label)
    ultimately show ?thesis
      using update_features_at [OF feats, of ft v] cnt by simp
  qed
  from feats tbl' at_k others show ?thesis by blast
qed

text \<open>
  A non-empty array feature whose key is no label of the enum \<open>feature_type\<close> makes the
  trigger raise, whatever else the features hold: the insert of the rating is rolled
  back. The key \<open>ingredients\<close>, under which \<open>extractFeatures\<close> and the seed recipes store
  the key ingredients, is such a key.
\<close>

lemma update_features_raises:
  assumes "(k, JArray (v # vs)) \<in> set fs" and "cast_feature_type k = None"
  shows "\<exists>e. update_features tbl pid delta fs = Inl e"
  using assms(1)
proof (induction fs arbitrary: tbl)
  case Nil
  then show ?case by simp
next
  case (Cons kv fs)
  show ?case
  proof (cases "update_feature tbl pid delta kv")
    case (Inl e)
    then show ?thesis by simp
  next
    case (Inr tbl1)
    have "kv \<noteq> (k, JArray (v # vs))"
      using Inr assms(2) by (auto simp: update_feature_def)
    with Cons.prems have "(k, JArray (v # vs)) \<in> set fs" by simp
    from Cons.IH [OF this, of tbl1] show ?thesis
      using Inr by simp
  qed
qed

lemma ingredients_key_raises:
  assumes "recipes (rating_recipe_id NEW) = Some fs" and "(''ingredients'', JArray (v # vs)) \<in> set fs"
  shows "\<exists>e. update_preference_weights recipes tbl NEW = Inl e"
proof -
  have "cast_feature_type ''ingredients'' = None"
    by (simp add: cast_feature_type_def)
  from update_features_raises [OF assms(2) this]
  obtain e where "update_features tbl (rating_profile_id NEW) (weight_delta (rating NEW)) fs = Inl e"
    by blast
  then show ?thesis
    using assms(1) by (simp add: update_preference_weights_def recipe_features_def)
qed

text \<open>
  Claim C4 does not hold of the trigger. A profile whose weight for \<open>(ingredient, lax)\<close>
  is \<open>0.5\<close> likes a Swedish salmon dish but excludes \<open>lax\<close>. Where the features of the
  dish hold its key ingredients (under \<open>ingredients\<close>, as those of the seed recipe do),
  the trigger raises on that key: the rating is not stored, the weight of
  \<open>(ingredient, lax)\<close> stays \<open>0.5\<close> and no feature receives the delta. Where they do not,
  the trigger completes and the penalty is applied, but the delta \<open>0.08\<close> of the scalar
  feature goes to the key whose value is the JSON text \<open>"swedish"\<close>, quotes included, and
  the key \<open>(cuisine, swedish)\<close> has no row.
\<close>

theorem excluded_penalty_lost:
  "weight_of lax_half (''p1'', Ingredient, ''lax'') = Some 0.5 \<and>
   update_preference_weights example_recipes lax_half liked_r4_without_lax
     = Inl (Invalid_enum_label ''ingredients'') \<and>
   apply_ratings example_recipes lax_half [liked_r4_without_lax] = lax_half \<and>
   rated_weight example_recipes lax_half liked_r2_without_lax (''p1'', Ingredient, ''lax'')
     = Inr (Some 0.3) \<and>
   rated_weight example_recipes lax_half liked_r2_without_lax (''p1'', Cuisine, ''swedish'') = Inr None \<and>
   rated_weight example_recipes lax_half liked_r2_without_lax
     (''p1'', Cuisine, [CHR 0x22] @ ''swedish'' @ [CHR 0x22]) = Inr (Some 0.08)"
proof -
  have raises: "update_preference_weights example_recipes lax_half liked_r4_without_lax
     = Inl (Invalid_enum_label ''ingredients'')"
    by (simp add: example_simps)
  then have "apply_ratings example_recipes lax_half [liked_r4_without_lax] = lax_half"
    by simp
  with raises show ?thesis
    by (simp add: example_simps)
qed

section \<open>Properties of the scoring engine\<close>

lemma score_array_foldl:
  "score_array wm t acc vs =
     foldl js_add acc
       (concat (map (\<lambda>v. case wm (weight_key_string t v) of None \<Rightarrow> [] | Some w \<Rightarrow> [w]) vs))"
  by (induction vs arbitrary: acc) (auto split: option.splits)

lemma score_features_foldl:
  "score_features wm acc fs =
     foldl js_add acc
       (concat (map (\<lambda>p. case wm (weight_key_string (fst p) (snd p)) of None \<Rightarrow> [] | Some w \<Rightarrow> [w])
          (scored_pairs fs)))"
  by (induction wm acc fs rule: score_features.induct)
     (auto simp: score_array_foldl comp_def split: option.splits)

lemma weight_key_string_inject:
  "CHR '':'' \<notin> set t \<Longrightarrow> CHR '':'' \<notin> set t' \<Longrightarrow>
   weight_key_string t v = weight_key_string t' v' \<longleftrightarrow> t = t' \<and> v = v'"
proof (induction t arbitrary: t')
  case Nil
  then show ?case by (cases t') (auto simp: weight_key_string_def)
next
  case (Cons c t)
  then show ?case by (cases t') (auto simp: weight_key_string_def)
qed

lemma weightMap_snoc:
  "weightMap (ws @ [w]) = (weightMap ws)(weight_key_string (feature_type w) (feature_value w) \<mapsto> weight w)"
  by (simp add: weightMap_def)

lemma weightMap_Nil: "weightMap [] = Map.empty"
  by (simp add: weightMap_def)

lemma weightMap_lookup:
  assumes "distinct (map (\<lambda>w. (feature_type w, feature_value w)) ws)"
    and "\<forall>w\<in>set ws. CHR '':'' \<notin> set (feature_type w)"
    and "CHR '':'' \<notin> set t"
  shows "(case weightMap ws (weight_key_string t v) of None \<Rightarrow> [] | Some x \<Rightarrow> [x])
       = map weight (filter (\<lambda>w. (feature_type w, feature_value w) = (t, v)) ws)"
  using assms(1,2)
proof (induction ws rule: rev_induct)
  case Nil
  then show ?case by (simp add: weightMap_Nil)
next
  case (snoc w ws)
  have dist: "distinct (map (\<lambda>w. (feature_type w, feature_value w)) ws)"
    and fresh: "\<forall>x\<in>set ws. (feature_type x, feature_value x) \<noteq> (feature_type w, feature_value w)"
    and colon: "\<forall>w\<in>set ws. CHR '':'' \<notin> set (feature_type w)"
    and colon_w: "CHR '':'' \<notin> set (feature_type w)"
    using snoc.prems by (auto simp: image_iff)
  note ih = snoc.IH [OF dist colon]
  show ?case
  proof (cases "(feature_type w, feature_value w) = (t, v)")
    case True
    then have "filter (\<lambda>w. (feature_type w, feature_value w) = (t, v)) ws = []"
      using fresh by (auto simp: filter_empty_conv)
    then show ?thesis
      using True by (simp add: weightMap_snoc)
  next
    case False
    then have "weight_key_string (feature_type w) (feature_value w) \<noteq> weight_key_string t v"
      using weight_key_string_inject [OF colon_w assms(3)] by auto
    then show ?thesis
      using False ih by (auto simp: weightMap_snoc)
  qed
qed

lemma sum_list_filter_partition:
  fixes f :: "'a \<Rightarrow> real"
  assumes "distinct ps"
  shows "(\<Sum>p\<leftarrow>ps. \<Sum>w\<leftarrow>filter (\<lambda>w. key w = p) ws. f w) = (\<Sum>w\<leftarrow>filter (\<lambda>w. key w \<in> set ps) ws. f w)"
  using assms
proof (induction ps)
  case Nil
  then show ?case by simp
next
  case (Cons p ps)
  have "(\<Sum>w\<leftarrow>filter (\<lambda>w. key w \<in> set (p # ps)) ws. f w)
      = (\<Sum>w\<leftarrow>filter (\<lambda>w. key w = p) ws. f w) + (\<Sum>w\<leftarrow>filter (\<lambda>w. key w \<in> set ps) ws. f w)"
    using Cons.prems by (induction ws) auto
  then show ?case
    using Cons by simp
qed

lemma sum_list_map_concat:
  fixes f :: "'a \<Rightarrow> real"
  shows "sum_list (map f (concat xss)) = (\<Sum>xs\<leftarrow>xss. sum_list (map f xs))"
  by (induction xss) simp_all

lemma distinct_matched_rows:
  assumes "distinct ws" and "distinct ps"
  shows "distinct (concat (map (\<lambda>p. filter (\<lambda>w. key w = p) ws) ps))"
  using assms(2)
proof (induction ps)
  case Nil
  then show ?case by simp
next
  case (Cons p ps)
  then show ?case using assms(1) by auto
qed

subsection \<open>The score as a sum of matched weights\<close>

text \<open>
  Claim C2, as stated, fails for a feature set whose array lists an element twice: the
  loop adds that element's weight once per occurrence, where the sum over the pairs
  present in both counts it once.
\<close>

theorem score_sum_counterexample:
  "distinct (map (\<lambda>w. (feature_type w, feature_value w)) beef_weight) \<and>
   calculateScore doubled_features beef_weight = 1 \<and>
   spec_score doubled_features beef_weight = 0.5"
proof -
  have "calculateScore doubled_features beef_weight = 1"
    by code_simp
  then show ?thesis
    by (simp add: doubled_features_def beef_weight_def spec_score_def)
qed

text \<open>
  Claim C2, amended. For a weight list holding each \<open>(feature_type, feature_value)\<close> key at
  most once (type names free of \<open>:\<close>, as all names of the schema are), the score is the
  sum of JavaScript, accumulated from \<open>0\<close> in the order of the features and rounded to
  binary64 at every addition, over the scalar features and over every occurrence of an
  element in an array feature, of the weight stored under that \<open>(type, value)\<close> pair; a
  pair without a weight adds nothing. When no array repeats an element, the weights
  added are those of exactly the pairs present in both the features and the weights,
  each once: the weights whose exact sum is the sum of the specification.
\<close>

theorem score_is_sum_of_matched_weights:
  fixes fs :: features and ws :: "PreferenceWeight list"
  defines "added \<equiv>
    concat (map (\<lambda>p. filter (\<lambda>w. (feature_type w, feature_value w) = p) ws) (scored_pairs fs))"
  assumes "distinct (map (\<lambda>w. (feature_type w, feature_value w)) ws)"
    and "\<forall>w\<in>set ws. CHR '':'' \<notin> set (feature_type w)"
    and "\<forall>kv\<in>set fs. CHR '':'' \<notin> set (fst kv)"
  shows "calculateScore fs ws = foldl js_add 0 (map weight added) \<and>
     (distinct (scored_pairs fs) \<longrightarrow>
        distinct added \<and>
        set added = {w \<in> set ws. (feature_type w, feature_value w) \<in> set (scored_pairs fs)} \<and>
        spec_score fs ws = sum_list (map weight added))"
proof -
  have keys: "CHR '':'' \<notin> set (fst p)" if "p \<in> set (scored_pairs fs)" for p
    using that assms(4) by (induction fs rule: scored_pairs.induct) auto
  have lookups:
    "map (\<lambda>p. case weightMap ws (weight_key_string (fst p) (snd p)) of None \<Rightarrow> [] | Some w \<Rightarrow> [w])
          (scored_pairs fs)
      = map (\<lambda>p. map weight (filter (\<lambda>w. (feature_type w, feature_value w) = p) ws)) (scored_pairs fs)"
  proof (rule map_cong [OF refl])
    fix p assume "p \<in> set (scored_pairs fs)"
    then have "CHR '':'' \<notin> set (fst p)" by (rule keys)
    from weightMap_lookup [OF assms(2,3) this, of "snd p"]
    show "(case weightMap ws (weight_key_string (fst p) (snd p)) of None \<Rightarrow> [] | Some w \<Rightarrow> [w])
        = map weight (filter (\<lambda>w. (feature_type w, feature_value w) = p) ws)"
      by simp
  qed
  have general: "calculateScore fs ws = foldl js_add 0 (map weight added)"
    unfolding calculateScore_def score_features_foldl lookups added_def
    by (simp add: map_concat comp_def)
  have rows: "distinct ws"
    using assms(2) by (rule distinct_map [THEN iffD1, THEN conjunct1])
  have members: "set added = {w \<in> set ws. (feature_type w, feature_value w) \<in> set (scored_pairs fs)}"
    unfolding added_def by auto
  have once: "distinct added" if "distinct (scored_pairs fs)"
    unfolding added_def using rows that by (rule distinct_matched_rows)
  have exact: "spec_score fs ws = sum_list (map weight added)" if "distinct (scored_pairs fs)"
  proof -
    have "sum_list (map weight added)
        = (\<Sum>p\<leftarrow>scored_pairs fs. \<Sum>w\<leftarrow>filter (\<lambda>w. (feature_type w, feature_value w) = p) ws. weight w)"
      by (simp add: added_def sum_list_map_concat comp_def)
    also have "\<dots> = spec_score fs ws"
      unfolding spec_score_def
      using sum_list_filter_partition
        [OF that, where key = "\<lambda>w. (feature_type w, feature_value w)" and ws = ws and f = weight] .
    finally show ?thesis by simp
  qed
  from general members once exact show ?thesis by blast
qed

theorem score_is_sum_of_matched_weights_witness:
  "distinct (map (\<lambda>w. (feature_type w, feature_value w)) example_weights) \<and>
   distinct (scored_pairs example_features) \<and>
   calculateScore example_features example_weights
     = js_add (js_add 0 (binary64 0.15)) (binary64 0.08) \<and>
   calculateScore example_features example_weights = binary64 0.22999999999999998 \<and>
   spec_score example_features example_weights = binary64 0.15 + binary64 0.08 \<and>
   binary64 0.22999999999999998 \<noteq> binary64 0.15 + binary64 0.08"
proof -
  have keys: "distinct (map (\<lambda>w. (feature_type w, feature_value w)) example_weights)"
    by (simp add: example_weights_def)
  have types: "\<forall>w\<in>set example_weights. CHR '':'' \<notin> set (feature_type w)"
    by (simp add: example_weights_def)
  have names: "\<forall>kv\<in>set example_features. CHR '':'' \<notin> set (fst kv)"
    by (simp add: example_features_def)
  have pairs: "distinct (scored_pairs example_features)"
    by (simp add: example_features_def)
  note th = score_is_sum_of_matched_weights [OF keys types names]
  have added: "map weight (concat (map (\<lambda>p. filter (\<lambda>w. (feature_type w, feature_value w) = p) example_weights)
      (scored_pairs example_features))) = [binary64 0.15, binary64 0.08]"
    by (simp add: example_features_def example_weights_def)
  have score: "calculateScore example_features example_weights
      = js_add (js_add 0 (binary64 0.15)) (binary64 0.08)"
    using th [THEN conjunct1] unfolding added by simp
  have rounded: "js_add (js_add 0 (binary64 0.15)) (binary64 0.08) = binary64 0.22999999999999998"
    by code_simp
  have inexact: "binary64 0.22999999999999998 \<noteq> binary64 0.15 + binary64 0.08"
    by code_simp
  have "spec_score example_features example_weights = binary64 0.15 + binary64 0.08"
    using th [THEN conjunct2, THEN mp, OF pairs, THEN conjunct2, THEN conjunct2] unfolding added by simp
  with keys pairs score rounded inexact show ?thesis by simp
qed

section \<open>Properties of the family aggregation\<close>

lemma Min_insert_min:
  fixes m s :: real
  assumes "finite A"
  shows "Min (insert (min m s) A) = Min (insert m (insert s A))"
proof (cases "A = {}")
  case True
  then show ?thesis by simp
next
  case False
  then show ?thesis using assms by (simp add: min.assoc)
qed

lemma score_profiles_min_Num:
  "snd (score_profiles fs aw sc (Num m) ps)
     = Num (Min (insert m (set (map (\<lambda>p. calculateScore fs (weightsByProfile aw (p_id p))) ps))))"
proof (induction ps arbitrary: sc m)
  case Nil
  then show ?case by simp
next
  case (Cons p ps)
  show ?case
    by (simp add: Cons.IH Let_def Min_insert_min del: Min_insert)
qed

lemma score_recipes_eq:
  "score_recipes profiles aw rs =
     map (family_entry profiles aw)
       (filter (\<lambda>r. number_ge0 (family_min_score (r_features r) aw profiles)) rs)"
  by (induction rs) (auto simp: family_entry_def family_min_score_def split: prod.splits)

lemma set_alist_update_subset: "set (AList.update k v al) \<subseteq> insert (k, v) (set al)"
  by (induction al) auto

lemma set_object_set_subset: "set (object_set obj k v) \<subseteq> insert (k, v) (set obj)"
  using set_alist_update_subset [of k v obj] by (auto simp: object_set_def)

lemma score_profiles_scores:
  "ns \<in> set (fst (score_profiles fs aw sc m ps)) \<Longrightarrow>
   ns \<in> set sc \<or>
   (\<exists>p\<in>set ps. fst ns = display_name p \<and> snd ns = round2 (calculateScore fs (weightsByProfile aw (p_id p))))"
proof (induction ps arbitrary: sc m)
  case Nil
  then show ?case by simp
next
  case (Cons p ps)
  let ?sc = "object_set sc (display_name p) (round2 (calculateScore fs (weightsByProfile aw (p_id p))))"
  from Cons.prems have "ns \<in> set (fst (score_profiles fs aw ?sc (Math_min m (calculateScore fs (weightsByProfile aw (p_id p)))) ps))"
    by (simp add: Let_def)
  from Cons.IH [OF this] show ?case
  proof
    assume "ns \<in> set ?sc"
    then have "ns \<in> insert (display_name p, round2 (calculateScore fs (weightsByProfile aw (p_id p)))) (set sc)"
      using set_object_set_subset by fastforce
    then show ?thesis by auto
  next
    assume "\<exists>q\<in>set ps. fst ns = display_name q \<and> snd ns = round2 (calculateScore fs (weightsByProfile aw (p_id q)))"
    then show ?thesis by auto
  qed
qed

lemma set_slice0: "set (slice0 xs limit) \<subseteq> set xs"
  by (auto simp: slice0_def dest: in_set_takeD)

lemma sorted_slice0: "sorted (map f xs) \<Longrightarrow> sorted (map f (slice0 xs limit))"
  by (simp add: slice0_def take_map [symmetric] sorted_wrt_take)

lemma slice0_all: "int (length xs) \<le> limit \<Longrightarrow> slice0 xs limit = xs"
  by (simp add: slice0_def)

lemma family_min_score_Min:
  assumes "profiles \<noteq> []"
  shows "family_min_score fs allWeights profiles = Num (spec_group_score profiles allWeights fs)"
proof -
  from assms obtain p ps where ps: "profiles = p # ps" by (cases profiles) auto
  show ?thesis
    unfolding family_min_score_def spec_group_score_def ps
    by (simp add: Let_def score_profiles_min_Num del: Min_insert)
qed

lemma spec_group_score_le:
  "p \<in> set profiles \<Longrightarrow>
   spec_group_score profiles allWeights fs \<le> calculateScore fs (weightsByProfile allWeights (p_id p))"
  unfolding spec_group_score_def by (intro Min_le) auto

lemma family_suggestions_unfold:
  assumes "filter (\<lambda>p. household_id p = householdId) profiles_table \<noteq> []"
  shows "getFamilySuggestions profiles_table weights_table recipes_table householdId limit
    = slice0 (sort_by_min_score
        (map (family_entry (filter (\<lambda>p. household_id p = householdId) profiles_table)
               (filter (\<lambda>w. profile_id w \<in> set (map p_id (filter (\<lambda>p. household_id p = householdId) profiles_table)))
                  weights_table))
           (filter (\<lambda>r. number_ge0 (family_min_score (r_features r)
               (filter (\<lambda>w. profile_id w \<in> set (map p_id (filter (\<lambda>p. household_id p = householdId) profiles_table)))
                  weights_table)
               (filter (\<lambda>p. household_id p = householdId) profiles_table)))
             (take 200 (order_by_external_rating recipes_table))))) limit"
  using assms by (simp add: getFamilySuggestions_def Let_def score_recipes_eq)

lemma alist_update_fresh: "k \<notin> fst ` set al \<Longrightarrow> AList.update k v al = al @ [(k, v)]"
  by (induction al) auto

lemma score_profiles_distinct:
  "distinct (map display_name ps) \<Longrightarrow> \<forall>p\<in>set ps. display_name p \<notin> fst ` set sc \<Longrightarrow>
   \<forall>p\<in>set ps. display_name p \<noteq> ''__proto__'' \<Longrightarrow>
   fst (score_profiles fs aw sc m ps)
     = sc @ map (\<lambda>p. (display_name p, round2 (calculateScore fs (weightsByProfile aw (p_id p))))) ps"
proof (induction ps arbitrary: sc m)
  case Nil
  then show ?case by simp
next
  case (Cons p ps)
  let ?v = "round2 (calculateScore fs (weightsByProfile aw (p_id p)))"
  have fresh: "display_name p \<notin> fst ` set sc"
    using Cons.prems(2) by simp
  have upd: "object_set sc (display_name p) ?v = sc @ [(display_name p, ?v)]"
    using alist_update_fresh [OF fresh] Cons.prems(3) by (simp add: object_set_def)
  have other: "display_name q \<noteq> display_name p" if "q \<in> set ps" for q
    using Cons.prems(1) that by (auto simp: image_iff)
  have rest: "\<forall>q\<in>set ps. display_name q \<notin> fst ` set (sc @ [(display_name p, ?v)])"
    using Cons.prems(2) other by auto
  have dist: "distinct (map display_name ps)"
    using Cons.prems(1) by simp
  have plain: "\<forall>p\<in>set ps. display_name p \<noteq> ''__proto__''"
    using Cons.prems(3) by simp
  show ?case
    by (simp add: Let_def upd Cons.IH [OF dist rest plain])
qed

lemma round2_group_score:
  assumes "profiles \<noteq> []"
  shows "round2 (spec_group_score profiles allWeights fs)
       = Min (set (map (\<lambda>p. round2 (calculateScore fs (weightsByProfile allWeights (p_id p)))) profiles))"
proof -
  let ?scores = "set (map (\<lambda>p. calculateScore fs (weightsByProfile allWeights (p_id p))) profiles)"
  have "mono round2"
    by (rule monoI) (rule round2_mono)
  moreover have "finite ?scores" "?scores \<noteq> {}"
    using assms by simp_all
  ultimately have "round2 (Min ?scores) = Min (round2 ` ?scores)"
    by (rule mono_Min_commute)
  then show ?thesis
    by (simp add: spec_group_score_def image_image)
qed

subsection \<open>The group score is the minimum\<close>

text \<open>
  Claim C1. For a household with at least one profile (an empty household returns no
  suggestions before any score is computed), the group score \<open>minScore\<close> that
  \<open>getFamilySuggestions\<close> computes for a recipe is the minimum of the profiles'
  \<open>calculateScore\<close> values; so it is at most the score of every profile, a negative one
  included. The test \<open>minScore >= 0\<close> reads this minimum, and every suggestion of the
  result stems from a candidate that passed it and carries, as \<open>min_score\<close>, the minimum
  of that candidate, rounded to two decimals for display. When the limit does not cut
  the list, every candidate that passes the test is suggested with that value; a
  candidate that some profile scores negative has a negative group score. What is
  displayed agrees: the \<open>min_score\<close> of a suggestion is at most each of its displayed
  scores, and it is their minimum when the profiles of the household have different
  display names, none of them \<open>__proto__\<close> (the rounding keeps the order).
\<close>

theorem group_score_is_minimum:
  fixes profiles_table weights_table recipes_table householdId limit
  defines "profiles \<equiv> filter (\<lambda>p. household_id p = householdId) profiles_table"
    and "allWeights \<equiv>
      filter (\<lambda>w. profile_id w \<in> set (map p_id (filter (\<lambda>p. household_id p = householdId) profiles_table)))
        weights_table"
    and "pool \<equiv> take 200 (order_by_external_rating recipes_table)"
    and "res \<equiv> getFamilySuggestions profiles_table weights_table recipes_table householdId limit"
  assumes household: "profiles \<noteq> []"
  shows "(\<forall>fs. family_min_score fs allWeights profiles = Num (spec_group_score profiles allWeights fs)) \<and>
    (\<forall>fs. \<forall>p\<in>set profiles.
       spec_group_score profiles allWeights fs \<le> calculateScore fs (weightsByProfile allWeights (p_id p))) \<and>
    (\<forall>e\<in>set res. \<exists>r\<in>set pool.
       recipe_id e = r_id r \<and>
       0 \<le> spec_group_score profiles allWeights (r_features r) \<and>
       min_score e = Num (round2 (spec_group_score profiles allWeights (r_features r)))) \<and>
    (\<forall>r\<in>set pool.
       0 \<le> spec_group_score profiles allWeights (r_features r) \<and>
       int (length (filter (\<lambda>r. 0 \<le> spec_group_score profiles allWeights (r_features r)) pool)) \<le> limit \<longrightarrow>
       (\<exists>e\<in>set res. recipe_id e = r_id r \<and>
          min_score e = Num (round2 (spec_group_score profiles allWeights (r_features r))))) \<and>
    (\<forall>r\<in>set pool.
       (\<exists>p\<in>set profiles. calculateScore (r_features r) (weightsByProfile allWeights (p_id p)) < 0) \<longrightarrow>
       spec_group_score profiles allWeights (r_features r) < 0) \<and>
    (\<forall>e\<in>set res. \<exists>m. min_score e = Num m \<and> (\<forall>ns\<in>set (scores e). m \<le> snd ns)) \<and>
    (distinct (map display_name profiles) \<and> ''__proto__'' \<notin> set (map display_name profiles) \<longrightarrow>
       (\<forall>e\<in>set res. min_score e = Num (Min (snd ` set (scores e)))))"
proof -
  let ?group = "\<lambda>r. spec_group_score profiles allWeights (r_features r)"
  let ?score = "\<lambda>r p. calculateScore (r_features r) (weightsByProfile allWeights (p_id p))"
  let ?valid = "filter (\<lambda>r. number_ge0 (family_min_score (r_features r) allWeights profiles)) pool"
  let ?scored = "map (family_entry profiles allWeights) ?valid"
  have minimum: "family_min_score fs allWeights profiles = Num (spec_group_score profiles allWeights fs)" for fs
    using household by (rule family_min_score_Min)
  have least: "spec_group_score profiles allWeights fs \<le> calculateScore fs (weightsByProfile allWeights (p_id p))"
    if "p \<in> set profiles" for fs p
    using that by (rule spec_group_score_le)
  have test: "number_ge0 (family_min_score (r_features r) allWeights profiles) \<longleftrightarrow> 0 \<le> ?group r" for r
    by (simp add: minimum)
  have valid: "?valid = filter (\<lambda>r. 0 \<le> ?group r) pool"
    by (simp add: test)
  have entry: "recipe_id (family_entry profiles allWeights r) = r_id r \<and>
      min_score (family_entry profiles allWeights r) = Num (round2 (?group r))" for r
    by (simp add: family_entry_def minimum)
  have res: "res = slice0 (sort_by_min_score ?scored) limit"
    using household family_suggestions_unfold [of householdId profiles_table weights_table recipes_table limit]
    by (simp add: res_def profiles_def allWeights_def pool_def)
  have stems: "\<exists>r\<in>set pool. 0 \<le> ?group r \<and> e = family_entry profiles allWeights r"
    if "e \<in> set res" for e
  proof -
    from that have "e \<in> set ?scored"
      unfolding res using set_slice0 [of "sort_by_min_score ?scored" limit]
      by (auto simp: sort_by_min_score_def)
    then show ?thesis
      unfolding valid by auto
  qed
  have origin: "\<exists>r\<in>set pool. recipe_id e = r_id r \<and> 0 \<le> ?group r \<and> min_score e = Num (round2 (?group r))"
    if "e \<in> set res" for e
    using stems [OF that] entry by blast
  have suggested: "\<exists>e\<in>set res. recipe_id e = r_id r \<and> min_score e = Num (round2 (?group r))"
    if r: "r \<in> set pool" and ok: "0 \<le> ?group r"
      and fits: "int (length (filter (\<lambda>r. 0 \<le> ?group r) pool)) \<le> limit" for r
  proof -
    have "int (length (sort_by_min_score ?scored)) \<le> limit"
      using fits unfolding valid by (simp add: sort_by_min_score_def)
    then have "res = sort_by_min_score ?scored"
      unfolding res by (rule slice0_all)
    then have "set res = set ?scored"
      by (simp add: sort_by_min_score_def)
    moreover have "family_entry profiles allWeights r \<in> set ?scored"
      unfolding valid using r ok by simp
    ultimately show ?thesis
      using entry by blast
  qed
  have veto: "?group r < 0" if "\<exists>p\<in>set profiles. ?score r p < 0" for r
  proof -
    from that obtain p where p: "p \<in> set profiles" "?score r p < 0" by blast
    from least [OF p(1), of "r_features r"] p(2) show ?thesis by simp
  qed
  have shown: "\<exists>m. min_score e = Num m \<and> (\<forall>ns\<in>set (scores e). m \<le> snd ns)" if "e \<in> set res" for e
  proof -
    from stems [OF that] obtain r where e: "e = family_entry profiles allWeights r" by blast
    have "round2 (?group r) \<le> snd ns" if "ns \<in> set (scores e)" for ns
    proof -
      from that have "ns \<in> set (fst (score_profiles (r_features r) allWeights [] Infinity profiles))"
        by (simp add: e family_entry_def)
      from score_profiles_scores [OF this] obtain p where p: "p \<in> set profiles"
        and ns: "snd ns = round2 (?score r p)" by auto
      from least [OF p, of "r_features r"] show ?thesis
        unfolding ns by (rule round2_mono)
    qed
    then show ?thesis
      using entry [of r] e by blast
  qed
  have displayed: "min_score e = Num (Min (snd ` set (scores e)))"
    if names: "distinct (map display_name profiles)"
      and plain: "''__proto__'' \<notin> set (map display_name profiles)" and "e \<in> set res" for e
  proof -
    from stems [OF that(3)] obtain r where e: "e = family_entry profiles allWeights r" by blast
    have "\<forall>p\<in>set profiles. display_name p \<noteq> ''__proto__''"
      using plain by (auto simp: image_iff)
    then have "scores e = map (\<lambda>p. (display_name p, round2 (?score r p))) profiles"
      using score_profiles_distinct [OF names, of "[]" "r_features r" allWeights Infinity]
      by (simp add: e family_entry_def)
    then have "snd ` set (scores e) = set (map (\<lambda>p. round2 (?score r p)) profiles)"
      by (simp add: image_image)
    then show ?thesis
      using entry [of r] e round2_group_score [OF household, of allWeights "r_features r"] by simp
  qed
  from minimum least origin suggested veto shown displayed show ?thesis by blast
qed

lemma family_scores_example:
  "map (\<lambda>e. (recipe_id e, min_score e, scores e))
     (getFamilySuggestions family_profiles family_weights [plain_dish, fish_dish, pasta_dish] ''h1'' 10)
     = [(''pasta'', Num (binary64 0.7),
           [(''Lisa'', binary64 0.8), (''Erik'', binary64 0.7), (''Kids'', binary64 0.9)]),
        (''plain'', Num 0, [(''Lisa'', 0), (''Erik'', 0), (''Kids'', 0)])]"
  by code_simp

lemma solo_scores_example:
  "map (\<lambda>e. (recipe_id e, min_score e, scores e))
     (getFamilySuggestions solo_profiles solo_weights [indian_dish, greek_dish] ''h3'' 10)
     = [(''greek'', Num (binary64 0.12), [(''Ann'', binary64 0.12)]),
        (''indian'', Num (binary64 0.12), [(''Ann'', binary64 0.12)])]"
  by code_simp

theorem group_score_is_minimum_witness:
  "filter (\<lambda>p. household_id p = ''h1'') family_profiles \<noteq> [] \<and>
   map (\<lambda>e. (recipe_id e, min_score e))
     (getFamilySuggestions family_profiles family_weights [plain_dish, fish_dish, pasta_dish] ''h1'' 10)
     = [(''pasta'', Num (binary64 0.7)), (''plain'', Num 0)] \<and>
   spec_group_score (filter (\<lambda>p. household_id p = ''h1'') family_profiles)
     (filter (\<lambda>w. profile_id w \<in> set (map p_id (filter (\<lambda>p. household_id p = ''h1'') family_profiles)))
        family_weights)
     (r_features pasta_dish) = binary64 0.7 \<and>
   spec_group_score (filter (\<lambda>p. household_id p = ''h1'') family_profiles)
     (filter (\<lambda>w. profile_id w \<in> set (map p_id (filter (\<lambda>p. household_id p = ''h1'') family_profiles)))
        family_weights)
     (r_features fish_dish) = binary64 (- 0.6) \<and>
   family_min_score (r_features fish_dish)
     (filter (\<lambda>w. profile_id w \<in> set (map p_id (filter (\<lambda>p. household_id p = ''h1'') family_profiles)))
        family_weights)
     (filter (\<lambda>p. household_id p = ''h1'') family_profiles) = Num (binary64 (- 0.6)) \<and>
   map (\<lambda>e. (recipe_id e, min_score e))
     (getFamilySuggestions solo_profiles solo_weights [indian_dish, greek_dish] ''h3'' 10)
     = [(''greek'', Num (binary64 0.12)), (''indian'', Num (binary64 0.12))] \<and>
   spec_group_score solo_profiles solo_weights (r_features greek_dish) = binary64 0.121"
proof -
  let ?ps = "filter (\<lambda>p. household_id p = ''h1'') family_profiles"
  let ?ws = "filter (\<lambda>w. profile_id w \<in> set (map p_id ?ps)) family_weights"
  have ne: "?ps \<noteq> []"
    by (simp add: family_profiles_def)
  note th = group_score_is_minimum [OF ne, of family_weights "[plain_dish, fish_dish, pasta_dish]" 10]
  have pasta: "spec_group_score ?ps ?ws (r_features pasta_dish) = binary64 0.7"
    by code_simp
  have fish: "spec_group_score ?ps ?ws (r_features fish_dish) = binary64 (- 0.6)"
    by code_simp
  have "family_min_score (r_features fish_dish) ?ws ?ps = Num (spec_group_score ?ps ?ws (r_features fish_dish))"
    using th [THEN conjunct1] by (rule spec)
  then have internal: "family_min_score (r_features fish_dish) ?ws ?ps = Num (binary64 (- 0.6))"
    unfolding fish .
  have family: "map (\<lambda>e. (recipe_id e, min_score e))
     (getFamilySuggestions family_profiles family_weights [plain_dish, fish_dish, pasta_dish] ''h1'' 10)
     = [(''pasta'', Num (binary64 0.7)), (''plain'', Num 0)]"
    using family_scores_example [THEN arg_cong, of "map (\<lambda>t. (fst t, fst (snd t)))"]
    by (simp add: comp_def)
  have solo: "map (\<lambda>e. (recipe_id e, min_score e))
     (getFamilySuggestions solo_profiles solo_weights [indian_dish, greek_dish] ''h3'' 10)
     = [(''greek'', Num (binary64 0.12)), (''indian'', Num (binary64 0.12))]"
    using solo_scores_example [THEN arg_cong, of "map (\<lambda>t. (fst t, fst (snd t)))"]
    by (simp add: comp_def)
  have greek: "spec_group_score solo_profiles solo_weights (r_features greek_dish) = binary64 0.121"
    by code_simp
  from ne family pasta fish internal solo greek show ?thesis by blast
qed

subsection \<open>Rounding and the ranking\<close>

text \<open>
  Claim C9, as stated, fails: the sort compares the emitted \<open>min_score\<close>, which is already
  rounded. Two dishes whose minima \<open>0.121\<close> and \<open>0.124\<close> both round to \<open>0.12\<close> keep their
  candidate order, the dish with the lower unrounded minimum first.
\<close>

theorem ranking_counterexample:
  "map recipe_id (getFamilySuggestions solo_profiles solo_weights [indian_dish, greek_dish] ''h3'' 10)
     = [''greek'', ''indian''] \<and>
   family_min_score (r_features greek_dish) solo_weights solo_profiles = Num (binary64 0.121) \<and>
   family_min_score (r_features indian_dish) solo_weights solo_profiles = Num (binary64 0.124) \<and>
   binary64 0.121 < binary64 0.124"
  by code_simp

text \<open>
  Claim C9, amended. Every suggestion stems from a recipe of the catalog whose unrounded
  minimum passed the test \<open>minScore >= 0\<close>; its \<open>min_score\<close> is that minimum rounded to two
  decimals and its per-profile scores are the profiles' scores rounded to two decimals.
  The list is ordered by the rounded \<open>min_score\<close>, the highest first.
\<close>

theorem suggestions_sorted_by_rounded_score:
  fixes profiles_table weights_table recipes_table householdId limit
  defines "profiles \<equiv> filter (\<lambda>p. household_id p = householdId) profiles_table"
    and "allWeights \<equiv>
      filter (\<lambda>w. profile_id w \<in> set (map p_id (filter (\<lambda>p. household_id p = householdId) profiles_table)))
        weights_table"
    and "res \<equiv> getFamilySuggestions profiles_table weights_table recipes_table householdId limit"
  shows "sorted (map (\<lambda>e. descending_key (min_score e)) res) \<and>
    (\<forall>e\<in>set res. \<exists>r\<in>set recipes_table.
        e = family_entry profiles allWeights r \<and>
        number_ge0 (family_min_score (r_features r) allWeights profiles) \<and>
        min_score e = round2_number (family_min_score (r_features r) allWeights profiles) \<and>
        (\<forall>ns\<in>set (scores e). \<exists>p\<in>set profiles.
            fst ns = display_name p \<and>
            snd ns = round2 (calculateScore (r_features r) (weightsByProfile allWeights (p_id p)))))"
proof (cases "profiles = []")
  case True
  then have "res = []"
    by (simp add: res_def getFamilySuggestions_def profiles_def)
  then show ?thesis by simp
next
  case False
  let ?pool = "take 200 (order_by_external_rating recipes_table)"
  let ?valid = "filter (\<lambda>r. number_ge0 (family_min_score (r_features r) allWeights profiles)) ?pool"
  let ?scored = "map (family_entry profiles allWeights) ?valid"
  have res: "res = slice0 (sort_by_min_score ?scored) limit"
    using False
    by (simp add: res_def getFamilySuggestions_def profiles_def allWeights_def Let_def score_recipes_eq)
  have "sorted (map (\<lambda>e. descending_key (min_score e)) (sort_by_min_score ?scored))"
    by (simp add: sort_by_min_score_def)
  then have sorted: "sorted (map (\<lambda>e. descending_key (min_score e)) res)"
    unfolding res by (rule sorted_slice0)
  have origin: "\<exists>r\<in>set recipes_table.
        e = family_entry profiles allWeights r \<and>
        number_ge0 (family_min_score (r_features r) allWeights profiles) \<and>
        min_score e = round2_number (family_min_score (r_features r) allWeights profiles) \<and>
        (\<forall>ns\<in>set (scores e). \<exists>p\<in>set profiles.
            fst ns = display_name p \<and>
            snd ns = round2 (calculateScore (r_features r) (weightsByProfile allWeights (p_id p))))"
    if "e \<in> set res" for e
  proof -
    from that have "e \<in> set ?scored"
      unfolding res using set_slice0 [of "sort_by_min_score ?scored" limit]
      by (auto simp: sort_by_min_score_def)
    then obtain r where r: "r \<in> set ?pool" "number_ge0 (family_min_score (r_features r) allWeights profiles)"
      and e: "e = family_entry profiles allWeights r"
      by auto
    have "r \<in> set recipes_table"
      using r(1) by (auto simp: order_by_external_rating_def dest: in_set_takeD)
    moreover have "\<exists>p\<in>set profiles. fst ns = display_name p \<and>
        snd ns = round2 (calculateScore (r_features r) (weightsByProfile allWeights (p_id p)))"
      if "ns \<in> set (scores e)" for ns
      using that score_profiles_scores [of ns "r_features r" allWeights "[]" Infinity profiles]
      by (simp add: e family_entry_def)
    ultimately show ?thesis
      using r(2) e by (auto simp: family_entry_def)
  qed
  from sorted origin show ?thesis by blast
qed

theorem suggestions_sorted_by_rounded_score_witness:
  "sorted (map (\<lambda>e. descending_key (min_score e))
     (getFamilySuggestions solo_profiles solo_weights [indian_dish, greek_dish] ''h3'' 10)) \<and>
   map min_score (getFamilySuggestions solo_profiles solo_weights [indian_dish, greek_dish] ''h3'' 10)
     = [Num (binary64 0.12), Num (binary64 0.12)] \<and>
   map scores (getFamilySuggestions solo_profiles solo_weights [indian_dish, greek_dish] ''h3'' 10)
     = [[(''Ann'', binary64 0.12)], [(''Ann'', binary64 0.12)]]"
proof -
  have "sorted (map (\<lambda>e. descending_key (min_score e))
     (getFamilySuggestions solo_profiles solo_weights [indian_dish, greek_dish] ''h3'' 10))"
    using suggestions_sorted_by_rounded_score
      [of solo_profiles solo_weights "[indian_dish, greek_dish]" "''h3''" 10]
    by (rule conjunct1)
  moreover have "map min_score (getFamilySuggestions solo_profiles solo_weights [indian_dish, greek_dish] ''h3'' 10)
     = [Num (binary64 0.12), Num (binary64 0.12)]"
    by code_simp
  moreover have "map scores (getFamilySuggestions solo_profiles solo_weights [indian_dish, greek_dish] ''h3'' 10)
     = [[(''Ann'', binary64 0.12)], [(''Ann'', binary64 0.12)]]"
    by code_simp
  ultimately show ?thesis by blast
qed

subsection \<open>Which recipes are suggested\<close>

text \<open>
  Claim C5, as stated, fails where the limit cuts the list: with limit \<open>1\<close> a cold-start
  household is given the most popular dish only, although the next dish, a candidate
  too, has the same non-negative group score \<open>0\<close>.
\<close>

theorem suggestion_list_counterexample:
  "map recipe_id (getFamilySuggestions family_profiles [] [fish_dish, pasta_dish, plain_dish] ''h1'' 1)
     = [''fish''] \<and>
   family_min_score (r_features pasta_dish) [] (filter (\<lambda>p. household_id p = ''h1'') family_profiles)
     = Num 0 \<and>
   pasta_dish \<in> set (take 200 (order_by_external_rating [fish_dish, pasta_dish, plain_dish]))"
  by code_simp

text \<open>
  Claim C5, amended. For a household with at least one profile, every recipe that
  \<open>getFamilySuggestions\<close> suggests is one of the candidates (the 200 most popular recipes)
  and has a non-negative group score; when the limit does not cut the list (no more
  candidates than \<open>limit\<close> have a non-negative group score), the suggestions are exactly
  the candidates with a non-negative group score. A recipe that every member scores \<open>0\<close>
  has group score \<open>0\<close> and passes the test; a recipe that some member scores negative does
  not pass it.
\<close>

theorem family_suggestions_nonnegative:
  fixes profiles_table weights_table recipes_table householdId limit
  defines "profiles \<equiv> filter (\<lambda>p. household_id p = householdId) profiles_table"
    and "allWeights \<equiv>
      filter (\<lambda>w. profile_id w \<in> set (map p_id (filter (\<lambda>p. household_id p = householdId) profiles_table)))
        weights_table"
    and "pool \<equiv> take 200 (order_by_external_rating recipes_table)"
    and "res \<equiv> getFamilySuggestions profiles_table weights_table recipes_table householdId limit"
  assumes household: "profiles \<noteq> []"
  shows "(\<forall>e\<in>set res. \<exists>r\<in>set pool. e = family_entry profiles allWeights r \<and>
            number_ge0 (family_min_score (r_features r) allWeights profiles)) \<and>
    (int (length (filter (\<lambda>r. number_ge0 (family_min_score (r_features r) allWeights profiles)) pool))
        \<le> limit \<longrightarrow>
       set res = family_entry profiles allWeights `
         {r \<in> set pool. number_ge0 (family_min_score (r_features r) allWeights profiles)}) \<and>
    (\<forall>fs. (\<forall>p\<in>set profiles. calculateScore fs (weightsByProfile allWeights (p_id p)) = 0) \<longrightarrow>
          family_min_score fs allWeights profiles = Num 0 \<and>
          number_ge0 (family_min_score fs allWeights profiles)) \<and>
    (\<forall>fs. (\<exists>p\<in>set profiles. calculateScore fs (weightsByProfile allWeights (p_id p)) < 0) \<longrightarrow>
          \<not> number_ge0 (family_min_score fs allWeights profiles))"
proof -
  let ?score = "\<lambda>fs p. calculateScore fs (weightsByProfile allWeights (p_id p))"
  let ?valid = "filter (\<lambda>r. number_ge0 (family_min_score (r_features r) allWeights profiles)) pool"
  let ?scored = "map (family_entry profiles allWeights) ?valid"
  have res: "res = slice0 (sort_by_min_score ?scored) limit"
    using household family_suggestions_unfold [of householdId profiles_table weights_table recipes_table limit]
    by (simp add: res_def profiles_def allWeights_def pool_def)
  have only_if: "\<exists>r\<in>set pool. e = family_entry profiles allWeights r \<and>
      number_ge0 (family_min_score (r_features r) allWeights profiles)" if "e \<in> set res" for e
  proof -
    from that have "e \<in> set ?scored"
      unfolding res using set_slice0 [of "sort_by_min_score ?scored" limit]
      by (auto simp: sort_by_min_score_def)
    then show ?thesis by auto
  qed
  have exact: "set res = family_entry profiles allWeights `
      {r \<in> set pool. number_ge0 (family_min_score (r_features r) allWeights profiles)}"
    if "int (length ?valid) \<le> limit"
  proof -
    have "int (length (sort_by_min_score ?scored)) \<le> limit"
      using that by (simp add: sort_by_min_score_def)
    then have "res = sort_by_min_score ?scored"
      unfolding res by (rule slice0_all)
    then show ?thesis
      by (auto simp: sort_by_min_score_def)
  qed
  have minimum: "family_min_score fs allWeights profiles = Num (spec_group_score profiles allWeights fs)" for fs
    using household by (rule family_min_score_Min)
  have cold: "family_min_score fs allWeights profiles = Num 0 \<and>
      number_ge0 (family_min_score fs allWeights profiles)"
    if "\<forall>p\<in>set profiles. ?score fs p = 0" for fs
  proof -
    have "set (map (?score fs) profiles) = {0}"
      using that household by (cases profiles) auto
    then show ?thesis
      unfolding minimum spec_group_score_def by simp
  qed
  have veto: "\<not> number_ge0 (family_min_score fs allWeights profiles)"
    if "\<exists>p\<in>set profiles. ?score fs p < 0" for fs
  proof -
    from that obtain p where p: "p \<in> set profiles" "?score fs p < 0" by blast
    from spec_group_score_le [OF p(1), of allWeights fs] p(2) show ?thesis
      unfolding minimum by simp
  qed
  from only_if exact cold veto show ?thesis by blast
qed

theorem family_suggestions_nonnegative_witness:
  "filter (\<lambda>p. household_id p = ''h1'') family_profiles \<noteq> [] \<and>
   map recipe_id (getFamilySuggestions family_profiles family_weights [plain_dish, fish_dish, pasta_dish] ''h1'' 10)
     = [''pasta'', ''plain''] \<and>
   \<not> number_ge0 (family_min_score (r_features fish_dish)
        (filter (\<lambda>w. profile_id w \<in> set (map p_id (filter (\<lambda>p. household_id p = ''h1'') family_profiles)))
           family_weights)
        (filter (\<lambda>p. household_id p = ''h1'') family_profiles)) \<and>
   family_min_score (r_features plain_dish)
        (filter (\<lambda>w. profile_id w \<in> set (map p_id (filter (\<lambda>p. household_id p = ''h1'') family_profiles)))
           family_weights)
        (filter (\<lambda>p. household_id p = ''h1'') family_profiles) = Num 0 \<and>
   set (getFamilySuggestions family_profiles family_weights [plain_dish, fish_dish, pasta_dish] ''h1'' 2)
     = family_entry (filter (\<lambda>p. household_id p = ''h1'') family_profiles)
        (filter (\<lambda>w. profile_id w \<in> set (map p_id (filter (\<lambda>p. household_id p = ''h1'') family_profiles)))
           family_weights) ` {pasta_dish, plain_dish}"
proof -
  let ?ps = "filter (\<lambda>p. household_id p = ''h1'') family_profiles"
  let ?ws = "filter (\<lambda>w. profile_id w \<in> set (map p_id ?ps)) family_weights"
  let ?pool = "take 200 (order_by_external_rating [plain_dish, fish_dish, pasta_dish])"
  have ne: "?ps \<noteq> []"
    by (simp add: family_profiles_def)
  note th = family_suggestions_nonnegative
    [OF ne, of family_weights "[plain_dish, fish_dish, pasta_dish]" 10]
  have lisa: "\<exists>p\<in>set ?ps. calculateScore (r_features fish_dish) (weightsByProfile ?ws (p_id p)) < 0"
    by code_simp
  have fish: "\<not> number_ge0 (family_min_score (r_features fish_dish) ?ws ?ps)"
    using th [THEN conjunct2, THEN conjunct2, THEN conjunct2, THEN spec, THEN mp, OF lisa] .
  have zero: "\<forall>p\<in>set ?ps. calculateScore (r_features plain_dish) (weightsByProfile ?ws (p_id p)) = 0"
    by code_simp
  have plain: "family_min_score (r_features plain_dish) ?ws ?ps = Num 0"
    using th [THEN conjunct2, THEN conjunct2, THEN conjunct1, THEN spec, THEN mp, OF zero]
    by (rule conjunct1)
  have ids: "map recipe_id (getFamilySuggestions family_profiles family_weights [plain_dish, fish_dish, pasta_dish] ''h1'' 10)
     = [''pasta'', ''plain'']"
    by code_simp
  have valid: "filter (\<lambda>r. number_ge0 (family_min_score (r_features r) ?ws ?ps)) ?pool
      = [pasta_dish, plain_dish]"
    by code_simp
  then have fits: "int (length (filter (\<lambda>r. number_ge0 (family_min_score (r_features r) ?ws ?ps)) ?pool)) \<le> 2"
    by simp
  have "{r \<in> set ?pool. number_ge0 (family_min_score (r_features r) ?ws ?ps)} = {pasta_dish, plain_dish}"
    using valid [THEN arg_cong, of set] by auto
  then have exact: "set (getFamilySuggestions family_profiles family_weights [plain_dish, fish_dish, pasta_dish] ''h1'' 2)
      = family_entry ?ps ?ws ` {pasta_dish, plain_dish}"
    using family_suggestions_nonnegative
      [OF ne, of family_weights "[plain_dish, fish_dish, pasta_dish]" 2,
       THEN conjunct2, THEN conjunct1, THEN mp, OF fits]
    by simp
  from ne ids fish plain exact show ?thesis by blast
qed

text \<open>
  The SQL function \<open>get_family_suggestions\<close> of \<open>schema.sql\<close> raises on every call: its
  query refers to \<open>min_score\<close>, which is a column of \<open>aggregated\<close> and a column of
  \<open>RETURNS TABLE\<close>. The copy of \<open>docs/SUPABASE_SETUP.md\<close>, which runs, filters
  \<open>WHERE min_score > 0\<close>: for the cold-start household, where every score is \<open>0\<close>, it
  returns no row, while \<open>getFamilySuggestions\<close> suggests every dish.
\<close>

lemma sql_family_suggestions_raises:
  "get_family_suggestions tbl profiles_table recipes_table p_household_id p_limit
     = Inl (Ambiguous_column ''min_score'')"
  by (simp add: get_family_suggestions_def ambiguous_reference_def)

lemma sql_family_suggestions_cold_start:
  "map recipe_id (getFamilySuggestions family_profiles [] [fish_dish, pasta_dish, plain_dish] ''h1'' 10)
     = [''fish'', ''pasta'', ''plain''] \<and>
   get_family_suggestions_SUPABASE_SETUP (\<lambda>k. None) family_profiles [fish_dish, pasta_dish, plain_dish] ''h1'' 10
     = Inr []"
proof -
  have "map recipe_id (getFamilySuggestions family_profiles [] [fish_dish, pasta_dish, plain_dish] ''h1'' 10)
     = [''fish'', ''pasta'', ''plain'']"
    by code_simp
  moreover have "get_family_suggestions_SUPABASE_SETUP (\<lambda>k. None) family_profiles
      [fish_dish, pasta_dish, plain_dish] ''h1'' 10 = Inr []"
    by (simp add: get_family_suggestions_SUPABASE_SETUP_def ambiguous_reference_def
        family_suggestions_query_def family_profiles_def fish_dish_def pasta_dish_def plain_dish_def
        calculate_recipe_score_def features_by_id_def recipe_features_def cast_feature_type_def
        add_user_weight_def)
  ultimately show ?thesis by blast
qed

section \<open>Properties of the next-recipe selection\<close>

lemma sort_key_unique_least:
  fixes f :: "'a \<Rightarrow> 'k::linorder"
  assumes "best \<in> set xs" and "\<forall>x\<in>set xs. x \<noteq> best \<longrightarrow> f best < f x"
  shows "\<exists>rest. sort_key f xs = best # rest"
proof -
  let ?ys = "sort_key f xs"
  have "set ?ys = set xs" by simp
  with assms(1) obtain y rest where ys: "?ys = y # rest"
    by (cases ?ys) auto
  have "sorted (map f ?ys)" by simp
  then have least: "\<forall>z\<in>set ?ys. f y \<le> f z"
    unfolding ys by auto
  have "y \<in> set xs"
    using \<open>set ?ys = set xs\<close> ys by auto
  have "f y \<le> f best"
    using least assms(1) by simp
  then have "y = best"
    using assms(2) \<open>y \<in> set xs\<close> by force
  with ys show ?thesis by blast
qed

lemma sort_key_hd_least:
  fixes f :: "'a \<Rightarrow> 'k::linorder"
  assumes "sort_key f xs = y # rest"
  shows "y \<in> set xs \<and> (\<forall>x\<in>set xs. f y \<le> f x)"
proof -
  have "set (sort_key f xs) = set xs" by simp
  moreover have "sorted (map f (sort_key f xs))" by simp
  ultimately show ?thesis
    unfolding assms by auto
qed

lemma unrated_query:
  "(if length (map rating_recipe_id (filter (\<lambda>r. rating_profile_id r = pid) ratings)) > 0
    then filter (\<lambda>r. r_id r \<notin> set (map rating_recipe_id (filter (\<lambda>r. rating_profile_id r = pid) ratings))) recipes
    else recipes)
   = filter (\<lambda>r. r_id r \<notin> rated_ids ratings pid) recipes"
  by (cases "filter (\<lambda>r. rating_profile_id r = pid) ratings") (simp_all add: rated_ids_def)

lemma cold_start_next:
  assumes "length (filter (\<lambda>r. rating_profile_id r = pid) ratings) < 20"
  shows "getNextRecipeToRate ratings recipes random pid =
    (case order_by_external_rating (filter (\<lambda>r. r_id r \<notin> rated_ids ratings pid) recipes) of
       [] \<Rightarrow> None | y # rest \<Rightarrow> Some y)"
  using assms unfolding getNextRecipeToRate_def Let_def unrated_query
  by (auto split: list.splits)

lemma sql_unrated:
  "filter (\<lambda>r. \<not> (\<exists>rt\<in>set ratings. rating_recipe_id rt = r_id r \<and> rating_profile_id rt = pid)) recipes
   = filter (\<lambda>r. r_id r \<notin> rated_ids ratings pid) recipes"
  by (rule filter_cong) (force simp: rated_ids_def image_iff)+


lemma popularity_with_random_less:
  "popularity_key a < popularity_key b \<Longrightarrow> (popularity_key a, (x::real)) < (popularity_key b, y)"
  by (simp add: less_prod_def)

lemmas next_simps = getNextRecipeToRate_def get_next_recipe_to_rate_def GET_recipes_next_def
  order_by_external_rating_def popularity_key_def rated_ids_def less_eq_prod_def less_prod_def Let_def
  tied_dish_a_def tied_dish_b_def fish_ratings_def fish_dish_def pasta_dish_def plain_dish_def
  greek_dish_def indian_dish_def

subsection \<open>Cold start\<close>

text \<open>
  Claim C7, as stated, fails where two unrated recipes tie for the highest external
  rating. The SQL selector orders ties by \<open>RANDOM()\<close>, so two profiles with the same
  (empty) history can be given different recipes; the TypeScript selector returns
  whichever tied row the database lists first.
\<close>

theorem cold_start_counterexample:
  "get_next_recipe_to_rate [] [tied_dish_a, tied_dish_b] (\<lambda>r. if r_id r = ''a'' then 0.1 else 0.9) ''p1''
     = [tied_dish_a] \<and>
   get_next_recipe_to_rate [] [tied_dish_a, tied_dish_b] (\<lambda>r. if r_id r = ''a'' then 0.9 else 0.1) ''p2''
     = [tied_dish_b] \<and>
   getNextRecipeToRate [] [tied_dish_a, tied_dish_b] 0 ''p1'' = Some tied_dish_a \<and>
   getNextRecipeToRate [] [tied_dish_b, tied_dish_a] 0 ''p2'' = Some tied_dish_b \<and>
   tied_dish_a \<noteq> tied_dish_b"
  by (simp add: next_simps)

text \<open>
  Claim C7, amended. For a profile with fewer than 20 ratings, \<open>getNextRecipeToRate\<close>
  returns an unrated recipe whose external rating is the highest among the unrated ones
  (recipes without a rating last). When a single unrated recipe has the highest rating,
  both selectors return it whatever the order of tied rows and whatever \<open>RANDOM()\<close> gives,
  so two cold-start profiles that have rated the same recipes are given the same recipe
  over the same catalog.
\<close>

theorem cold_start_selection:
  assumes cold_p: "length (filter (\<lambda>r. rating_profile_id r = p) ratings) < 20"
    and cold_q: "length (filter (\<lambda>r. rating_profile_id r = q) ratings) < 20"
    and same_history: "rated_ids ratings p = rated_ids ratings q"
    and same_catalog: "set recipes = set recipes'"
  shows "(\<forall>r. getNextRecipeToRate ratings recipes random p = Some r \<longrightarrow>
            r \<in> set recipes \<and> r_id r \<notin> rated_ids ratings p \<and>
            (\<forall>r'\<in>set recipes. r_id r' \<notin> rated_ids ratings p \<longrightarrow> popularity_key r \<le> popularity_key r')) \<and>
    (\<forall>best. best \<in> set recipes \<and> r_id best \<notin> rated_ids ratings p \<and>
        (\<forall>r'\<in>set recipes. r_id r' \<notin> rated_ids ratings p \<and> r' \<noteq> best \<longrightarrow>
            popularity_key best < popularity_key r') \<longrightarrow>
        getNextRecipeToRate ratings recipes random p = Some best \<and>
        getNextRecipeToRate ratings recipes' random' q = Some best \<and>
        get_next_recipe_to_rate ratings recipes rnd p = [best] \<and>
        get_next_recipe_to_rate ratings recipes' rnd' q = [best])"
proof -
  have top: "r \<in> set recipes \<and> r_id r \<notin> rated_ids ratings p \<and>
        (\<forall>r'\<in>set recipes. r_id r' \<notin> rated_ids ratings p \<longrightarrow> popularity_key r \<le> popularity_key r')"
    if "getNextRecipeToRate ratings recipes random p = Some r" for r
  proof -
  from that obtain rest where
    "order_by_external_rating (filter (\<lambda>r. r_id r \<notin> rated_ids ratings p) recipes) = r # rest"
    unfolding cold_start_next [OF cold_p] by (auto split: list.splits)
  from sort_key_hd_least [OF this [unfolded order_by_external_rating_def]]
  show ?thesis
    by auto
  qed
  have unique: "getNextRecipeToRate ratings recipes random p = Some best \<and>
        getNextRecipeToRate ratings recipes' random' q = Some best \<and>
        get_next_recipe_to_rate ratings recipes rnd p = [best] \<and>
        get_next_recipe_to_rate ratings recipes' rnd' q = [best]"
    if best: "best \<in> set recipes \<and> r_id best \<notin> rated_ids ratings p \<and>
        (\<forall>r'\<in>set recipes. r_id r' \<notin> rated_ids ratings p \<and> r' \<noteq> best \<longrightarrow>
            popularity_key best < popularity_key r')" for best
  proof (intro conjI)
  have first: "\<exists>rest. sort_key popularity_key (filter (\<lambda>r. r_id r \<notin> rated_ids ratings pid) rows) = best # rest"
    if "rated_ids ratings pid = rated_ids ratings p" and "set rows = set recipes" for pid rows
    by (rule sort_key_unique_least) (use best that in auto)
  have first_rnd: "\<exists>rest. sort_key (\<lambda>r. (popularity_key r, f r))
        (filter (\<lambda>r. r_id r \<notin> rated_ids ratings pid) rows) = best # rest"
    if "rated_ids ratings pid = rated_ids ratings p" and "set rows = set recipes"
    for pid rows and f :: "Recipe \<Rightarrow> real"
    by (rule sort_key_unique_least) (use best that in \<open>auto intro: popularity_with_random_less\<close>)
  show "getNextRecipeToRate ratings recipes random p = Some best"
    unfolding cold_start_next [OF cold_p] order_by_external_rating_def
    using first [of p recipes] by auto
  show "getNextRecipeToRate ratings recipes' random' q = Some best"
    unfolding cold_start_next [OF cold_q] order_by_external_rating_def
    using first [of q recipes'] same_history same_catalog by auto
  show "get_next_recipe_to_rate ratings recipes rnd p = [best]"
    unfolding get_next_recipe_to_rate_def sql_unrated
    using first_rnd [of p recipes rnd] by auto
  show "get_next_recipe_to_rate ratings recipes' rnd' q = [best]"
    unfolding get_next_recipe_to_rate_def sql_unrated
    using first_rnd [of q recipes' rnd'] same_history same_catalog by auto
  qed
  from top unique show ?thesis by blast
qed

theorem cold_start_selection_witness:
  "getNextRecipeToRate fish_ratings [plain_dish, fish_dish, pasta_dish] 0.3 ''p1'' = Some pasta_dish \<and>
   getNextRecipeToRate fish_ratings [pasta_dish, plain_dish, fish_dish] 0.7 ''p2'' = Some pasta_dish \<and>
   get_next_recipe_to_rate fish_ratings [plain_dish, fish_dish, pasta_dish] (\<lambda>r. 0.5) ''p1'' = [pasta_dish] \<and>
   get_next_recipe_to_rate fish_ratings [pasta_dish, plain_dish, fish_dish] (\<lambda>r. 0.2) ''p2'' = [pasta_dish]"
proof -
  have cold_p: "length (filter (\<lambda>r. rating_profile_id r = ''p1'') fish_ratings) < 20"
    and cold_q: "length (filter (\<lambda>r. rating_profile_id r = ''p2'') fish_ratings) < 20"
    by (simp_all add: fish_ratings_def)
  have same_history: "rated_ids fish_ratings ''p1'' = rated_ids fish_ratings ''p2''"
    by (simp add: rated_ids_def fish_ratings_def)
  have same_catalog: "set [plain_dish, fish_dish, pasta_dish] = set [pasta_dish, plain_dish, fish_dish]"
    by auto
  have best: "pasta_dish \<in> set [plain_dish, fish_dish, pasta_dish] \<and>
      r_id pasta_dish \<notin> rated_ids fish_ratings ''p1'' \<and>
      (\<forall>r'\<in>set [plain_dish, fish_dish, pasta_dish].
          r_id r' \<notin> rated_ids fish_ratings ''p1'' \<and> r' \<noteq> pasta_dish \<longrightarrow>
          popularity_key pasta_dish < popularity_key r')"
    by (simp add: next_simps)
  show ?thesis
    using cold_start_selection [OF cold_p cold_q same_history same_catalog,
        THEN conjunct2, rule_format, OF best]
    by blast
qed

subsection \<open>The excluded recipe\<close>

text \<open>A recipe the selector returns is one of the catalog that the profile has not rated.\<close>

lemma next_recipe_never_rated:
  assumes "getNextRecipeToRate ratings recipes random p = Some r"
    and "0 \<le> random" and "random < 1"
  shows "r \<in> set recipes \<and> r_id r \<notin> rated_ids ratings p"
proof -
  let ?unrated = "filter (\<lambda>r. r_id r \<notin> rated_ids ratings p) recipes"
  let ?n = "if length (filter (\<lambda>r. rating_profile_id r = p) ratings) < 20 then 1 else (20::nat)"
  let ?rs = "take ?n (order_by_external_rating ?unrated)"
  let ?i = "nat \<lfloor>random * real (length ?rs)\<rfloor>"
  from assms(1) have ne: "?rs \<noteq> []" and r: "r = ?rs ! 0 \<or> r = ?rs ! ?i"
    unfolding getNextRecipeToRate_def Let_def unrated_query
    by (auto split: if_splits)
  have "random * real (length ?rs) < real (length ?rs)"
    using assms(3) ne by simp
  moreover have "0 \<le> random * real (length ?rs)"
    using assms(2) by simp
  ultimately have "?i < length ?rs"
    by (metis floor_less_iff nat_less_iff of_int_of_nat_eq of_nat_0_le_iff zero_le_floor)
  moreover have "0 < length ?rs" using ne by simp
  ultimately have "r \<in> set ?rs"
    using r nth_mem by metis
  then have "r \<in> set ?unrated"
    by (auto simp: order_by_external_rating_def dest: in_set_takeD)
  then show ?thesis by simp
qed

text \<open>
  Claim C8 at the request \<open>GET /api/recipes/next?exclude=greek\<close> of a profile without
  ratings: the handler passes the id on, \<open>getNextRecipeToRate\<close> has no parameter for it,
  and the excluded recipe, the most popular unrated one, is returned.
\<close>

theorem excluded_recipe_returned:
  "GET_recipes_next [] [indian_dish, greek_dish] 0 ''p5'' (Some ''greek'') = Some greek_dish \<and>
   r_id greek_dish = ''greek''"
  by (simp add: next_simps)

section \<open>Properties of the feature extraction\<close>

lemma count_cuisines_foldl:
  "count_cuisines allText acc kws = foldl increment acc (matching_cuisines allText kws)"
  by (induction allText acc kws rule: count_cuisines.induct)
     (simp_all add: matching_cuisines_def increment_def)

lemma map_of_tabulate:
  "map_of (map (\<lambda>x. (x, f x)) xs) k = (if k \<in> set xs then Some (f k) else None)"
  by (induction xs) auto

lemma alist_update_tabulate_in:
  "k \<in> set xs \<Longrightarrow> distinct xs \<Longrightarrow>
   AList.update k v (map (\<lambda>x. (x, f x)) xs) = map (\<lambda>x. (x, if x = k then v else f x)) xs"
  by (induction xs) auto

lemma alist_update_tabulate_notin:
  "k \<notin> set xs \<Longrightarrow> AList.update k v (map (\<lambda>x. (x, f x)) xs) = map (\<lambda>x. (x, f x)) xs @ [(k, v)]"
  by (induction xs) auto

lemma count_list_snoc: "count_list (m @ [c]) x = (if x = c then count_list m x + 1 else count_list m x)"
  by (induction m) auto

lemma find_append: "find P (xs @ ys) = (case find P xs of None \<Rightarrow> find P ys | Some x \<Rightarrow> Some x)"
  by (induction xs) auto

lemma counts_after_loop:
  "foldl increment [] m = map (\<lambda>c. (c, count_list m c)) (rev (remdups (rev m)))"
proof (induction m rule: rev_induct)
  case Nil
  then show ?case by simp
next
  case (snoc c m)
  let ?ks = "rev (remdups (rev m))"
  let ?old = "map (\<lambda>x. (x, count_list m x)) ?ks"
  let ?cnt = "count_list (m @ [c])"
  have fold: "foldl increment [] (m @ [c]) = increment ?old c"
    using snoc.IH by simp
  show ?case
  proof (cases "c \<in> set m")
    case True
    have "increment ?old c = map (\<lambda>x. (x, if x = c then count_list m c + 1 else count_list m x)) ?ks"
      using True by (simp add: increment_def map_of_tabulate alist_update_tabulate_in)
    also have "\<dots> = map (\<lambda>x. (x, ?cnt x)) ?ks"
      by (intro map_cong refl) (simp add: count_list_snoc)
    finally have "increment ?old c = map (\<lambda>x. (x, ?cnt x)) ?ks" .
    moreover have "rev (remdups (rev (m @ [c]))) = ?ks"
      using True by simp
    ultimately show ?thesis
      unfolding fold by (simp only:)
  next
    case False
    have step: "increment ?old c = ?old @ [(c, 1)]"
      using False by (simp add: increment_def map_of_tabulate alist_update_tabulate_notin)
    have same: "?old = map (\<lambda>x. (x, ?cnt x)) ?ks"
      using False by (intro map_cong refl) (auto simp: count_list_snoc)
    have last: "?cnt c = 1"
      using False by (simp add: count_list_snoc count_list_0_iff)
    have "map (\<lambda>x. (x, ?cnt x)) (?ks @ [c]) = map (\<lambda>x. (x, ?cnt x)) ?ks @ [(c, ?cnt c)]"
      by (simp only: map_append list.map)
    also have "\<dots> = ?old @ [(c, 1)]"
      by (simp only: same [symmetric] last)
    finally have "increment ?old c = map (\<lambda>x. (x, ?cnt x)) (?ks @ [c])"
      using step by (simp only:)
    moreover have "rev (remdups (rev (m @ [c]))) = ?ks @ [c]"
      using False by simp
    ultimately show ?thesis
      unfolding fold by (simp only:)
  qed
qed

lemma find_filter_hd:
  "find P xs = (case filter P xs of [] \<Rightarrow> None | x # rest \<Rightarrow> Some x)"
  by (induction xs) auto

lemma sort_key_head_is_first_least:
  fixes f :: "'a \<Rightarrow> 'k::linorder"
  assumes "sort_key f xs = y # ys"
  shows "find (\<lambda>x. \<forall>x'\<in>set xs. f x \<le> f x') xs = Some y"
proof -
  have least: "\<forall>x\<in>set xs. f y \<le> f x"
    using sort_key_hd_least [OF assms] by blast
  have y: "y \<in> set xs"
    using sort_key_hd_least [OF assms] by blast
  have "filter (\<lambda>x. f x = f y) xs = filter (\<lambda>x. f x = f y) (sort_key f xs)"
    by (rule sort_key_stable [symmetric])
  also have "\<dots> = y # filter (\<lambda>x. f x = f y) ys"
    unfolding assms by simp
  finally have first: "filter (\<lambda>x. f x = f y) xs = y # filter (\<lambda>x. f x = f y) ys" .
  have "(\<forall>x'\<in>set xs. f x \<le> f x') \<longleftrightarrow> f x = f y" if "x \<in> set xs" for x
    using that least y by (auto intro: antisym)
  then have "filter (\<lambda>x. \<forall>x'\<in>set xs. f x \<le> f x') xs = filter (\<lambda>x. f x = f y) xs"
    by (intro filter_cong) auto
  then show ?thesis
    by (simp add: find_filter_hd first)
qed

lemma find_first_occurrences:
  "find Q (rev (remdups (rev m))) = find Q m"
proof (induction m rule: rev_induct)
  case Nil
  then show ?case by simp
next
  case (snoc c m)
  show ?case
  proof (cases "c \<in> set m")
    case True
    have "find Q m = None \<Longrightarrow> \<not> Q c"
      using True by (auto simp: find_None_iff)
    then show ?thesis
      using True snoc.IH by (auto simp: find_append split: option.splits)
  next
    case False
    then show ?thesis
      using snoc.IH by (simp add: find_append)
  qed
qed

lemma find_tabulate:
  "find P (map (\<lambda>c. (c, g c)) xs) = map_option (\<lambda>c. (c, g c)) (find (\<lambda>c. P (c, g c)) xs)"
  by (induction xs) auto

lemma detect_cuisine_is_spec:
  "detect_cuisine allText kws = spec_cuisine allText kws"
proof -
  let ?m = "matching_cuisines allText kws"
  let ?ks = "rev (remdups (rev ?m))"
  let ?acc = "map (\<lambda>c. (c, count_list ?m c)) ?ks"
  let ?f = "\<lambda>e :: string \<times> nat. - int (snd e)"
  have acc: "count_cuisines allText [] kws = ?acc"
    by (simp add: count_cuisines_foldl counts_after_loop)
  show ?thesis
  proof (cases "sort_key ?f ?acc")
    case Nil
    then have "?acc = []"
      by (metis length_0_conv length_sort)
    then have "?m = []" by simp
    then show ?thesis
      using Nil acc by (simp add: detect_cuisine_def spec_cuisine_def)
  next
    case (Cons e rest)
    from sort_key_head_is_first_least [OF Cons]
    have "find (\<lambda>x. \<forall>x'\<in>set ?acc. snd x' \<le> snd x) ?acc = Some e"
      by simp
    then have "map_option (\<lambda>c. (c, count_list ?m c))
        (find (\<lambda>c. \<forall>c'\<in>set ?m. count_list ?m c' \<le> count_list ?m c) ?ks) = Some e"
      by (simp add: find_tabulate)
    then have "map_option (\<lambda>c. (c, count_list ?m c)) (spec_cuisine allText kws) = Some e"
      by (simp add: find_first_occurrences spec_cuisine_def Let_def)
    then have "spec_cuisine allText kws = Some (fst e)"
      by auto
    then show ?thesis
      using Cons acc by (simp add: detect_cuisine_def)
  qed
qed

lemma detect_cuisine_None:
  "detect_cuisine allText kws = None \<longleftrightarrow> matching_cuisines allText kws = []"
proof -
  have "sort_key (\<lambda>e. - int (snd e)) (count_cuisines allText [] kws) = []
      \<longleftrightarrow> count_cuisines allText [] kws = []"
    by (metis length_0_conv length_sort)
  also have "\<dots> \<longleftrightarrow> matching_cuisines allText kws = []"
    by (simp add: count_cuisines_foldl counts_after_loop)
  finally show ?thesis
    by (cases "sort_key (\<lambda>e. - int (snd e)) (count_cuisines allText [] kws)")
       (simp_all add: detect_cuisine_def)
qed

subsection \<open>The cuisine feature\<close>

text \<open>
  Claim C10. The cuisine feature of \<open>extractFeatures\<close> is the cuisine whose keywords of
  \<open>CUISINE_KEYWORDS\<close> match the lowercased text most often, each matching keyword counting
  once; among several cuisines with the highest count it is the one whose first matching
  keyword comes first in the table; the feature is absent exactly when no keyword matches.
\<close>

theorem cuisine_is_most_matched:
  fixes ingredients recipeName prepTime cookTime
  defines "allText \<equiv>
    join_space (toLowerCase recipeName # map (\<lambda>i. toLowerCase (ingredient i)) ingredients)"
  shows "map_of (extractFeatures ingredients recipeName prepTime cookTime) ''cuisine''
       = map_option JString (spec_cuisine allText CUISINE_KEYWORDS) \<and>
     (map_of (extractFeatures ingredients recipeName prepTime cookTime) ''cuisine'' = None
       \<longleftrightarrow> matching_cuisines allText CUISINE_KEYWORDS = [])"
proof -
  have feature: "map_of (extractFeatures ingredients recipeName prepTime cookTime) ''cuisine''
      = map_option JString (detect_cuisine allText CUISINE_KEYWORDS)"
    by (simp add: extractFeatures_def Let_def allText_def split: option.splits)
  then have "map_of (extractFeatures ingredients recipeName prepTime cookTime) ''cuisine'' = None
      \<longleftrightarrow> matching_cuisines allText CUISINE_KEYWORDS = []"
    by (simp add: detect_cuisine_None)
  with feature show ?thesis
    by (simp add: detect_cuisine_is_spec)
qed

lemma tie_text:
  "join_space (toLowerCase tie_name # map (\<lambda>i. toLowerCase (ingredient i)) tie_ingredients)
    = ''lingon med parmesan pesto hackad dill''"
  by code_simp

lemma tie_matches:
  "matching_cuisines ''lingon med parmesan pesto hackad dill'' CUISINE_KEYWORDS
    = [''italian'', ''italian'', ''swedish'', ''swedish'']"
  by code_simp

theorem cuisine_is_most_matched_witness:
  "matching_cuisines
     (join_space (toLowerCase tie_name # map (\<lambda>i. toLowerCase (ingredient i)) tie_ingredients))
     CUISINE_KEYWORDS = [''italian'', ''italian'', ''swedish'', ''swedish''] \<and>
   map_of (extractFeatures tie_ingredients tie_name None None) ''cuisine'' = Some (JString ''italian'')"
proof -
  have "spec_cuisine ''lingon med parmesan pesto hackad dill'' CUISINE_KEYWORDS = Some ''italian''"
    unfolding spec_cuisine_def tie_matches by simp
  then have "map_of (extractFeatures tie_ingredients tie_name None None) ''cuisine'' = Some (JString ''italian'')"
    using cuisine_is_most_matched [of tie_ingredients tie_name None None, THEN conjunct1]
    unfolding tie_text by simp
  then show ?thesis
    unfolding tie_text tie_matches by simp
qed

subsection \<open>Exclusion penalties and the score\<close>

lemma weightMap_filter:
  assumes "\<forall>w\<in>set ws. \<not> P w \<longrightarrow> weight_key_string (feature_type w) (feature_value w) \<noteq> k"
  shows "weightMap (filter P ws) k = weightMap ws k"
  using assms
proof (induction ws rule: rev_induct)
  case Nil
  then show ?case by simp
next
  case (snoc w ws)
  then show ?case
    by (cases "P w") (auto simp: weightMap_snoc)
qed

lemma extractFeatures_keys:
  "kv \<in> set (extractFeatures ings name prep cook) \<Longrightarrow>
   fst kv \<in> {''protein'', ''carb'', ''cuisine'', ''spice_level'', ''prep_time_bucket'', ''ingredients''}"
  by (auto simp: extractFeatures_def Let_def split: option.splits if_splits)

lemma scored_pairs_keys: "p \<in> set (scored_pairs fs) \<Longrightarrow> \<exists>kv\<in>set fs. fst kv = fst p"
  by (induction fs rule: scored_pairs.induct) auto

lemma extracted_key_not_ingredient:
  "t \<in> {''protein'', ''carb'', ''cuisine'', ''spice_level'', ''prep_time_bucket'', ''ingredients''} \<Longrightarrow>
   weight_key_string ''ingredient'' v' \<noteq> weight_key_string t v"
  by (auto simp: weight_key_string_def)

text \<open>
  Claim C6. The score of extracted features does not change when every weight of type
  \<open>ingredient\<close> is removed from the weight list: \<open>extractFeatures\<close> stores the key
  ingredients under \<open>ingredients\<close>, no key of its result is \<open>ingredient\<close>, and the
  penalty of an excluded ingredient changes rows of type \<open>ingredient\<close> only. So the
  exclusion penalties never reach the score of an extracted feature set.
\<close>

theorem exclusion_penalties_never_score:
  "calculateScore (extractFeatures ings name prep cook) ws
     = calculateScore (extractFeatures ings name prep cook)
         (filter (\<lambda>w. feature_type w \<noteq> ''ingredient'') ws) \<and>
   (\<forall>tbl pid xs k. update_excluded tbl pid xs k \<noteq> tbl k \<longrightarrow> (\<exists>x\<in>set xs. k = (pid, Ingredient, x))) \<and>
   feature_type_label Ingredient = ''ingredient'' \<and>
   ''ingredients'' \<noteq> ''ingredient''"
proof -
  let ?fs = "extractFeatures ings name prep cook"
  let ?P = "\<lambda>w. feature_type w \<noteq> ''ingredient''"
  have same: "weightMap (filter ?P ws) (weight_key_string (fst p) (snd p))
      = weightMap ws (weight_key_string (fst p) (snd p))"
    if "p \<in> set (scored_pairs ?fs)" for p
  proof (rule weightMap_filter, intro ballI impI)
    fix w assume "w \<in> set ws" and "\<not> ?P w"
    then have w: "feature_type w = ''ingredient''" by simp
    from that obtain kv where "kv \<in> set ?fs" "fst kv = fst p"
      using scored_pairs_keys by blast
    then have "fst p \<in> {''protein'', ''carb'', ''cuisine'', ''spice_level'', ''prep_time_bucket'', ''ingredients''}"
      using extractFeatures_keys by metis
    from extracted_key_not_ingredient [OF this]
    show "weight_key_string (feature_type w) (feature_value w) \<noteq> weight_key_string (fst p) (snd p)"
      unfolding w .
  qed
  have "calculateScore ?fs ws = calculateScore ?fs (filter ?P ws)"
    unfolding calculateScore_def score_features_foldl
    by (simp add: same cong: map_cong)
  moreover have "\<exists>x\<in>set xs. k = (pid, Ingredient, x)" if "update_excluded tbl pid xs k \<noteq> tbl k"
    for tbl pid xs k
    using that update_excluded_other [of k pid xs tbl] by auto
  ultimately show ?thesis by auto
qed

lemma salmon_features:
  "extractFeatures salmon_ingredients ''Laxris'' (Some 10) (Some 15)
     = [(''protein'', JArray [''salmon'']), (''carb'', JString ''rice''),
        (''spice_level'', JString ''mild''), (''prep_time_bucket'', JString ''quick''),
        (''ingredients'', JArray [''lax'', ''ris''])]"
  by code_simp

theorem exclusion_penalties_never_score_witness:
  "calculateScore (extractFeatures salmon_ingredients ''Laxris'' (Some 10) (Some 15)) salmon_weights
     = binary64 0.3 \<and>
   calculateScore (extractFeatures salmon_ingredients ''Laxris'' (Some 10) (Some 15))
     (filter (\<lambda>w. feature_type w \<noteq> ''ingredient'') salmon_weights) = binary64 0.3 \<and>
   update_excluded lax_half ''p1'' [''lax''] (''p1'', Ingredient, ''lax'') \<noteq> lax_half (''p1'', Ingredient, ''lax'') \<and>
   (\<exists>x\<in>set [''lax'']. (''p1'', Ingredient, ''lax'') = (''p1'', Ingredient, x))"
proof -
  note th = exclusion_penalties_never_score
    [of salmon_ingredients "''Laxris''" "Some 10" "Some 15" salmon_weights]
  have without: "calculateScore (extractFeatures salmon_ingredients ''Laxris'' (Some 10) (Some 15))
     (filter (\<lambda>w. feature_type w \<noteq> ''ingredient'') salmon_weights) = binary64 0.3"
    unfolding salmon_features by code_simp
  then have "with": "calculateScore (extractFeatures salmon_ingredients ''Laxris'' (Some 10) (Some 15))
     salmon_weights = binary64 0.3"
    using th [THEN conjunct1] by simp
  have changed: "update_excluded lax_half ''p1'' [''lax''] (''p1'', Ingredient, ''lax'')
      \<noteq> lax_half (''p1'', Ingredient, ''lax'')"
    by (simp add: lax_half_def upsert_excluded_def)
  then have "\<exists>x\<in>set [''lax'']. (''p1'', Ingredient, ''lax'') = (''p1'', Ingredient, x)"
    using th [THEN conjunct2, THEN conjunct1, rule_format,
        of lax_half "''p1''" "[''lax'']" "(''p1'', Ingredient, ''lax'')"]
    by blast
  with "with" without changed show ?thesis by blast
qed

end
